theory Spec2Isabelle
  imports Complex_Main
begin

section \<open>Dense matrices\<close>

text \<open>
  The simplex core of \<^verbatim>\<open>simplex.go\<close> works on \<^verbatim>\<open>*mat.Dense\<close> values of the gonum
  matrix package, which is not part of the repository. A dense matrix is modelled as the
  list of its rows. Entries are \<^typ>\<open>real\<close>: the model computes with exact arithmetic, so
  the rounding of \<^verbatim>\<open>float64\<close>, NaN and overflow are outside it; the one infinity the
  source uses (\<^verbatim>\<open>math.Inf(1)\<close> as the start of the ratio test) is modelled by \<open>None\<close>.
  A panic of the matrix package (index out of range, dimension mismatch) is the outcome
  \<open>ErrPanic\<close>. Matrices are the rectangular ones that \<^verbatim>\<open>mat.NewDense\<close> builds.
\<close>

type_synonym Dense = "real list list"

datatype error = ErrInvalid string | ErrSingular | ErrPanic

definition Dims :: "Dense \<Rightarrow> nat \<times> nat" where
  "Dims M = (length M, (case M of [] \<Rightarrow> 0 | r # _ \<Rightarrow> length r))"

definition At :: "Dense \<Rightarrow> nat \<Rightarrow> nat \<Rightarrow> error + real" where
  "At M i j = (if i < length M \<and> j < length (M ! i) then Inr (M ! i ! j) else Inl ErrPanic)"

definition SetAt :: "Dense \<Rightarrow> nat \<Rightarrow> nat \<Rightarrow> real \<Rightarrow> error + Dense" where
  "SetAt M i j v =
     (if i < length M \<and> j < length (M ! i) then Inr (M[i := (M ! i)[j := v]])
      else Inl ErrPanic)"

definition NewDense :: "nat \<Rightarrow> nat \<Rightarrow> Dense" where
  "NewDense r k = replicate r (replicate k 0)"

text \<open>\<^verbatim>\<open>Grow(0, k)\<close>: \<open>k\<close> more columns, zero in a matrix that owns its storage.\<close>

definition Grow :: "Dense \<Rightarrow> nat \<Rightarrow> Dense" where
  "Grow M k = map (\<lambda>r. r @ replicate k 0) M"

definition ColView :: "Dense \<Rightarrow> nat \<Rightarrow> error + Dense" where
  "ColView M j = (if j < snd (Dims M) then Inr (map (\<lambda>r. [r ! j]) M) else Inl ErrPanic)"

definition Mul :: "Dense \<Rightarrow> Dense \<Rightarrow> error + Dense" where
  "Mul P Q =
     (if snd (Dims P) \<noteq> fst (Dims Q) then Inl ErrPanic
      else Inr (map (\<lambda>r. map (\<lambda>j. sum_list (map (\<lambda>k. r ! k * Q ! k ! j) [0..<length Q]))
                               [0..<snd (Dims Q)]) P))"

definition Sub :: "Dense \<Rightarrow> Dense \<Rightarrow> error + Dense" where
  "Sub P Q =
     (if Dims P \<noteq> Dims Q then Inl ErrPanic
      else Inr (map (\<lambda>(r, s). map (\<lambda>(u, v). u - v) (zip r s)) (zip P Q)))"

definition Scale :: "real \<Rightarrow> Dense \<Rightarrow> Dense" where
  "Scale f M = map (map (\<lambda>v. f * v)) M"

text \<open>
  Modelled from the spec: \<^verbatim>\<open>Inverse\<close> and \<^verbatim>\<open>Solve\<close> of the matrix package (``solve a
  linear system \<open>M\<cdot>x = v\<close> for square \<open>M\<close>; invert a square matrix; both fail with a
  distinguishable singular-matrix error''). The exact inverse is the adjugate over the
  determinant, the determinant by expansion along the first row.
\<close>

definition del :: "nat \<Rightarrow> 'a list \<Rightarrow> 'a list" where
  "del k xs = take k xs @ drop (Suc k) xs"

fun det :: "Dense \<Rightarrow> real" where
  "det [] = 1"
| "det (r # rs) =
     sum_list (map (\<lambda>j. (- 1) ^ j * (r ! j) * det (map (del j) rs)) [0..<length r])"

definition cofactor :: "Dense \<Rightarrow> nat \<Rightarrow> nat \<Rightarrow> real" where
  "cofactor M i j = (- 1) ^ (i + j) * det (map (del j) (del i M))"

definition Inverse :: "Dense \<Rightarrow> error + Dense" where
  "Inverse M =
     (if fst (Dims M) \<noteq> snd (Dims M) then Inl ErrPanic
      else if det M = 0 then Inl ErrSingular
      else Inr (map (\<lambda>i. map (\<lambda>j. cofactor M j i / det M) [0..<length M]) [0..<length M]))"

definition Solve :: "Dense \<Rightarrow> Dense \<Rightarrow> error + Dense" where
  "Solve M V = (case Inverse M of Inl e \<Rightarrow> Inl e | Inr MInv \<Rightarrow> Mul MInv V)"

section \<open>The canonical form (array remap)\<close>

text \<open>
  \<^verbatim>\<open>B\<close>, \<^verbatim>\<open>AN\<close>, \<^verbatim>\<open>cB\<close> and \<^verbatim>\<open>cN\<close> are slices of \<^verbatim>\<open>A\<close> and \<^verbatim>\<open>c\<close> that share their
  storage: they are not fields of the model but functions of \<open>A\<close> and \<open>c\<close>, and a write
  through a view is a write to its parent at the shifted column. The field \<open>remap\<close> is a
  slice of ints in the first version of the file and a Go map in the second.
\<close>

record 'r CanonicalForm =
  n :: nat
  m :: nat
  A :: Dense
  x :: Dense
  c :: Dense
  b :: Dense
  xBStar :: Dense
  remap :: 'r

definition B :: "'r CanonicalForm \<Rightarrow> Dense" where
  "B cf = map (\<lambda>r. take (m cf) (drop (n cf) r)) (take (m cf) (A cf))"

definition AN :: "'r CanonicalForm \<Rightarrow> Dense" where
  "AN cf = map (\<lambda>r. take (n cf) r) (take (m cf) (A cf))"

definition cB :: "'r CanonicalForm \<Rightarrow> Dense" where
  "cB cf = map (\<lambda>r. take (m cf) (drop (n cf) r)) (take 1 (c cf))"

definition cN :: "'r CanonicalForm \<Rightarrow> Dense" where
  "cN cf = map (\<lambda>r. take (n cf) r) (take 1 (c cf))"

definition B_Set :: "'r CanonicalForm \<Rightarrow> nat \<Rightarrow> nat \<Rightarrow> real \<Rightarrow> error + 'r CanonicalForm" where
  "B_Set cf i j v =
     (if i < m cf \<and> j < m cf then
        (case SetAt (A cf) i (n cf + j) v of Inl e \<Rightarrow> Inl e | Inr M \<Rightarrow> Inr (cf\<lparr>A := M\<rparr>))
      else Inl ErrPanic)"

definition AN_Set :: "'r CanonicalForm \<Rightarrow> nat \<Rightarrow> nat \<Rightarrow> real \<Rightarrow> error + 'r CanonicalForm" where
  "AN_Set cf i j v =
     (if i < m cf \<and> j < n cf then
        (case SetAt (A cf) i j v of Inl e \<Rightarrow> Inl e | Inr M \<Rightarrow> Inr (cf\<lparr>A := M\<rparr>))
      else Inl ErrPanic)"

definition cB_Set :: "'r CanonicalForm \<Rightarrow> nat \<Rightarrow> nat \<Rightarrow> real \<Rightarrow> error + 'r CanonicalForm" where
  "cB_Set cf i j v =
     (if i < 1 \<and> j < m cf then
        (case SetAt (c cf) i (n cf + j) v of Inl e \<Rightarrow> Inl e | Inr M \<Rightarrow> Inr (cf\<lparr>c := M\<rparr>))
      else Inl ErrPanic)"

definition cN_Set :: "'r CanonicalForm \<Rightarrow> nat \<Rightarrow> nat \<Rightarrow> real \<Rightarrow> error + 'r CanonicalForm" where
  "cN_Set cf i j v =
     (if i < 1 \<and> j < n cf then
        (case SetAt (c cf) i j v of Inl e \<Rightarrow> Inl e | Inr M \<Rightarrow> Inr (cf\<lparr>c := M\<rparr>))
      else Inl ErrPanic)"

text \<open>The zero value \<^verbatim>\<open>CanonicalForm{}\<close>.\<close>

definition zero_cf :: "int list CanonicalForm" where
  "zero_cf = \<lparr>n = 0, m = 0, A = [], x = [], c = [], b = [], xBStar = [], remap = []\<rparr>"

text \<open>The loop of \<^verbatim>\<open>New\<close> that sets the slack coefficients.\<close>

function add_slack :: "nat \<Rightarrow> nat \<Rightarrow> nat \<Rightarrow> Dense \<Rightarrow> error + Dense" where
  "add_slack i mm nn M =
     (if i < mm then
        (case SetAt M i (nn + i) 1 of Inl e \<Rightarrow> Inl e | Inr M' \<Rightarrow> add_slack (Suc i) mm nn M')
      else Inr M)"
  by pat_completeness auto
termination
  by (relation "measure (\<lambda>(i, mm, nn, M). mm - i)") auto

text \<open>
  \<^verbatim>\<open>New\<close> returns the error (if any) and leaves the receiver as the second component.
  The slices taken at the end cannot fail once the slack loop has succeeded on non-empty
  matrices, and are the view functions above.
\<close>

definition New ::
  "int list CanonicalForm \<Rightarrow> Dense \<Rightarrow> Dense \<Rightarrow> Dense \<Rightarrow> error option \<times> int list CanonicalForm" where
  "New cf cc AA bb =
     (let (rows, cols) = Dims cc in
      if rows > 1 then (Some (ErrInvalid ''z dims.r > 1''), cf)
      else
        let cf1 = cf\<lparr>n := cols\<rparr>; (rows2, cols2) = Dims AA in
        if cols2 > n cf1 then (Some (ErrInvalid ''A dims.c > z dims.r''), cf1)
        else
          let cf2 = cf1\<lparr>m := rows2\<rparr>;
              cf3 = cf2\<lparr>A := Grow AA (m cf2)\<rparr> in
          (case add_slack 0 (m cf3) (n cf3) (A cf3) of
             Inl e \<Rightarrow> (Some e, cf3)
           | Inr M \<Rightarrow>
               let cf4 = cf3\<lparr>A := M\<rparr>;
                   cf5 = cf4\<lparr>b := bb\<rparr>;
                   cf6 = cf5\<lparr>c := Grow cc (m cf5)\<rparr>;
                   cf7 = cf6\<lparr>x := NewDense (n cf6 + m cf6) 1\<rparr>;
                   cf8 = cf7\<lparr>xBStar := bb\<rparr>
               in (None, cf8\<lparr>remap := map int [0..<n cf8 + m cf8]\<rparr>)))"

definition FindY :: "'r CanonicalForm \<Rightarrow> error + Dense" where
  "FindY cf = (case Inverse (B cf) of Inl e \<Rightarrow> Inl e | Inr BInv \<Rightarrow> Mul (cB cf) BInv)"

function entering_loop :: "Dense \<Rightarrow> nat \<Rightarrow> nat \<Rightarrow> real \<Rightarrow> int \<Rightarrow> error + int" where
  "entering_loop r k j mx e =
     (if j < k then
        (case At r 0 j of
           Inl err \<Rightarrow> Inl err
         | Inr v \<Rightarrow>
             if v > 0 \<and> v > mx then entering_loop r k (Suc j) v (int j)
             else entering_loop r k (Suc j) mx e)
      else Inr e)"
  by pat_completeness auto
termination
  by (relation "measure (\<lambda>(r, k, j, mx, e). k - j)") auto

definition reduced_costs :: "Dense \<Rightarrow> 'r CanonicalForm \<Rightarrow> error + Dense" where
  "reduced_costs y cf =
     (case Mul y (AN cf) of Inl e \<Rightarrow> Inl e | Inr yAN \<Rightarrow> Sub (cN cf) yAN)"

definition FindEnteringVariable :: "Dense \<Rightarrow> int \<Rightarrow> 'r CanonicalForm \<Rightarrow> error + int" where
  "FindEnteringVariable y forceEnteringVarIndex cf =
     (case reduced_costs y cf of
        Inl e \<Rightarrow> Inl e
      | Inr r \<Rightarrow>
          if forceEnteringVarIndex \<noteq> 0 then
            (if forceEnteringVarIndex < 0 then Inl ErrPanic
             else (case At r 0 (nat forceEnteringVarIndex) of
                     Inl e \<Rightarrow> Inl e
                   | Inr v \<Rightarrow> if v > 0 then Inr forceEnteringVarIndex else Inr (- 1)))
          else entering_loop r (snd (Dims r)) 0 0 (- 1))"

definition SolveBd :: "int \<Rightarrow> 'r CanonicalForm \<Rightarrow> error + Dense" where
  "SolveBd enteringVarIndex cf =
     (if enteringVarIndex < 0 then Inl ErrPanic
      else (case ColView (AN cf) (nat enteringVarIndex) of
              Inl e \<Rightarrow> Inl e
            | Inr col \<Rightarrow> Solve (B cf) col))"

text \<open>\<open>tmp < x\<close> where \<open>x\<close> may still be \<^verbatim>\<open>math.Inf(1)\<close> (\<open>None\<close>).\<close>

definition less_inf :: "real \<Rightarrow> real option \<Rightarrow> bool" where
  "less_inf t xo = (case xo of None \<Rightarrow> True | Some v \<Rightarrow> t < v)"

function leaving_loop ::
  "Dense \<Rightarrow> Dense \<Rightarrow> nat \<Rightarrow> nat \<Rightarrow> bool \<Rightarrow> real option \<Rightarrow> int \<Rightarrow> error + (bool \<times> real option \<times> int)" where
  "leaving_loop d xB r i found xo l =
     (if i < r then
        (case At d i 0 of
           Inl e \<Rightarrow> Inl e
         | Inr di \<Rightarrow>
             if di \<le> 0 then leaving_loop d xB r (Suc i) found xo l
             else
               (case At xB i 0 of
                  Inl e \<Rightarrow> Inl e
                | Inr xi \<Rightarrow>
                    if less_inf (xi / di) xo
                    then leaving_loop d xB r (Suc i) True (Some (xi / di)) (int i)
                    else leaving_loop d xB r (Suc i) True xo l))
      else Inr (found, xo, l))"
  by pat_completeness auto
termination
  by (relation "measure (\<lambda>(d, xB, r, i, found, xo, l). r - i)") auto

definition FindLeavingVariable :: "Dense \<Rightarrow> 'r CanonicalForm \<Rightarrow> error + (real option \<times> int)" where
  "FindLeavingVariable d cf =
     (case leaving_loop d (xBStar cf) (fst (Dims d)) 0 False None (- 1) of
        Inl e \<Rightarrow> Inl e
      | Inr (found, xo, l) \<Rightarrow> if \<not> found then Inr (Some (- 1), - 1) else Inr (xo, l))"

text \<open>The loop of \<^verbatim>\<open>Update\<close> that exchanges the entering and the leaving column.\<close>

function swap_loop ::
  "nat \<Rightarrow> nat \<Rightarrow> nat \<Rightarrow> nat \<Rightarrow> Dense \<Rightarrow> 'r CanonicalForm \<Rightarrow> error + 'r CanonicalForm" where
  "swap_loop r i k l leavingCol cf =
     (if i < r then
        (case At (AN cf) i k of
           Inl e \<Rightarrow> Inl e
         | Inr a \<Rightarrow>
             (case B_Set cf i l a of
                Inl e \<Rightarrow> Inl e
              | Inr cf1 \<Rightarrow>
                  (case At leavingCol i 0 of
                     Inl e \<Rightarrow> Inl e
                   | Inr v \<Rightarrow>
                       (case AN_Set cf1 i k v of
                          Inl e \<Rightarrow> Inl e
                        | Inr cf2 \<Rightarrow> swap_loop r (Suc i) k l leavingCol cf2))))
      else Inr cf)"
  by pat_completeness auto
termination
  by (relation "measure (\<lambda>(r, i, k, l, leavingCol, cf). r - i)") auto

definition Update ::
  "Dense \<Rightarrow> Dense \<Rightarrow> real \<Rightarrow> int \<Rightarrow> int \<Rightarrow> 'r CanonicalForm \<Rightarrow> error + 'r CanonicalForm" where
  "Update d y xv enteringVarIndex leavingVarIndex cf =
     (if enteringVarIndex < 0 \<or> leavingVarIndex < 0 then Inl ErrPanic
      else
        let k = nat enteringVarIndex; l = nat leavingVarIndex in
        (case Sub (xBStar cf) (Scale xv d) of
           Inl e \<Rightarrow> Inl e
         | Inr xb1 \<Rightarrow>
        (case SetAt xb1 l 0 xv of
           Inl e \<Rightarrow> Inl e
         | Inr xb2 \<Rightarrow>
        let cf1 = cf\<lparr>xBStar := xb2\<rparr> in
        (case ColView (B cf1) l of
           Inl e \<Rightarrow> Inl e
         | Inr leavingCol \<Rightarrow>
        (case At (cB cf1) 0 l of
           Inl e \<Rightarrow> Inl e
         | Inr leavingC \<Rightarrow>
        (case swap_loop (fst (Dims d)) 0 k l leavingCol cf1 of
           Inl e \<Rightarrow> Inl e
         | Inr cf2 \<Rightarrow>
        (case At (cN cf2) 0 k of
           Inl e \<Rightarrow> Inl e
         | Inr ck \<Rightarrow>
        (case cB_Set cf2 0 l ck of
           Inl e \<Rightarrow> Inl e
         | Inr cf3 \<Rightarrow> cN_Set cf3 0 k leavingC))))))))"

text \<open>
  One iteration. The result is the returned pair \<open>(end, state)\<close>, or the error; an error is
  returned before anything is written. \<open>Update\<close> is reached with a finite step only (lemma
  \<open>FindLeavingVariable_finite\<close> below).
\<close>

definition Iter :: "int \<Rightarrow> int list CanonicalForm \<Rightarrow> error + (bool \<times> int list CanonicalForm)" where
  "Iter forceEnteringVarIndex cf =
     (case FindY cf of
        Inl e \<Rightarrow> Inl e
      | Inr y \<Rightarrow>
     (case FindEnteringVariable y forceEnteringVarIndex cf of
        Inl e \<Rightarrow> Inl e
      | Inr enteringVarIndex \<Rightarrow>
     if enteringVarIndex = - 1 then Inr (True, cf)
     else
     (case SolveBd enteringVarIndex cf of
        Inl e \<Rightarrow> Inl e
      | Inr d \<Rightarrow>
     (case FindLeavingVariable d cf of
        Inl e \<Rightarrow> Inl e
      | Inr (xo, leavingVarIndex) \<Rightarrow>
     if leavingVarIndex = - 1 then Inr (True, cf)
     else
       let pos = int (n cf) + leavingVarIndex in
       if pos < 0 \<or> int (length (remap cf)) \<le> pos
          \<or> enteringVarIndex < 0 \<or> int (length (remap cf)) \<le> enteringVarIndex
       then Inl ErrPanic
       else
         let tmp = remap cf ! nat pos;
             cf1 = cf\<lparr>remap := (remap cf)[nat pos := enteringVarIndex]\<rparr>;
             cf2 = cf1\<lparr>remap := (remap cf1)[nat enteringVarIndex := tmp]\<rparr> in
         (case xo of
            None \<Rightarrow> Inl ErrPanic
          | Some xv \<Rightarrow>
              (case Update d y xv enteringVarIndex leavingVarIndex cf2 of
                 Inl e \<Rightarrow> Inl e
               | Inr cf3 \<Rightarrow> Inr (False, cf3)))))))"

function results_loop ::
  "int list CanonicalForm \<Rightarrow> nat \<Rightarrow> Dense \<Rightarrow> real \<Rightarrow> error + (Dense \<times> real)" where
  "results_loop cf i result tot =
     (if i < n cf + m cf then
        (if length (remap cf) \<le> i \<or> remap cf ! i < 0 then Inl ErrPanic
         else
           (case At (xBStar cf) (i - n cf) 0 of
              Inl e \<Rightarrow> Inl e
            | Inr v \<Rightarrow>
                (case SetAt result (nat (remap cf ! i)) 0 v of
                   Inl e \<Rightarrow> Inl e
                 | Inr result' \<Rightarrow>
                     if remap cf ! i < int (n cf) then
                       (case At (c cf) 0 i of
                          Inl e \<Rightarrow> Inl e
                        | Inr ci \<Rightarrow> results_loop cf (Suc i) result' (tot + v * ci))
                     else results_loop cf (Suc i) result' tot)))
      else Inr (result, tot))"
  by pat_completeness auto
termination
  by (relation "measure (\<lambda>(cf, i, result, tot). n cf + m cf - i)") auto

definition GetResults :: "int list CanonicalForm \<Rightarrow> error + (Dense \<times> real)" where
  "GetResults cf =
     (let (rows, cols) = Dims (x cf) in results_loop cf (n cf) (NewDense rows cols) 0)"

fun simplex_loop ::
  "nat \<Rightarrow> int list CanonicalForm \<Rightarrow> nat \<Rightarrow> error + (nat \<times> int list CanonicalForm)" where
  "simplex_loop 0 cf totalIter = Inr (totalIter, cf)"
| "simplex_loop (Suc k) cf totalIter =
     (case Iter 0 cf of
        Inl e \<Rightarrow> Inl e
      | Inr (fin, cf') \<Rightarrow>
          if fin then Inr (totalIter, cf') else simplex_loop k cf' (Suc totalIter))"

definition Simplex :: "Dense \<Rightarrow> Dense \<Rightarrow> Dense \<Rightarrow> int \<Rightarrow> error + (nat \<times> Dense \<times> real)" where
  "Simplex cc AA bb maxIter =
     (case New zero_cf cc AA bb of
        (Some e, _) \<Rightarrow> Inl e
      | (None, cf) \<Rightarrow>
          (case simplex_loop (nat maxIter) cf 0 of
             Inl e \<Rightarrow> Inl e
           | Inr (totalIter, cf') \<Rightarrow>
               (case GetResults cf' of
                  Inl e \<Rightarrow> Inl e
                | Inr (results, score) \<Rightarrow> Inr (totalIter, results, score))))"

section \<open>The canonical form (map remap)\<close>

text \<open>
  The second version of the file keeps \<^verbatim>\<open>remap\<close> as a Go map from variable index to
  basis row. Its functions carry the suffix \<open>_map\<close> where the name is that of the first
  version; \<^verbatim>\<open>FindY\<close> and \<^verbatim>\<open>SolveBd\<close> are the same text in both.
\<close>

definition zero_cf_map :: "(int \<rightharpoonup> int) CanonicalForm" where
  "zero_cf_map =
     \<lparr>n = 0, m = 0, A = [], x = [], c = [], b = [], xBStar = [], remap = Map.empty\<rparr>"

function init_remap :: "nat \<Rightarrow> nat \<Rightarrow> nat \<Rightarrow> (int \<rightharpoonup> int) \<Rightarrow> (int \<rightharpoonup> int)" where
  "init_remap i j hi rm =
     (if i < hi then init_remap (Suc i) (Suc j) hi (rm(int i \<mapsto> int j)) else rm)"
  by pat_completeness auto
termination
  by (relation "measure (\<lambda>(i, j, hi, rm). hi - i)") auto

definition New_map ::
  "(int \<rightharpoonup> int) CanonicalForm \<Rightarrow> Dense \<Rightarrow> Dense \<Rightarrow> Dense
     \<Rightarrow> error option \<times> (int \<rightharpoonup> int) CanonicalForm" where
  "New_map cf z AA bb =
     (let cf0 = cf\<lparr>remap := Map.empty\<rparr>; (r, k) = Dims z in
      if r > 1 then (Some (ErrInvalid ''z dims.r > 1''), cf0)
      else
        let cf1 = cf0\<lparr>n := k\<rparr>; (r2, k2) = Dims AA in
        if k2 > n cf1 then (Some (ErrInvalid ''A dims.c > z dims.r''), cf1)
        else
          let cf2 = cf1\<lparr>m := r2\<rparr>;
              cf3 = cf2\<lparr>A := Grow AA (m cf2)\<rparr> in
          (case add_slack 0 (m cf3) (n cf3) (A cf3) of
             Inl e \<Rightarrow> (Some e, cf3)
           | Inr M \<Rightarrow>
               let cf4 = cf3\<lparr>A := M\<rparr>;
                   cf5 = cf4\<lparr>b := bb\<rparr>;
                   cf6 = cf5\<lparr>c := Grow z (m cf5)\<rparr>;
                   cf7 = cf6\<lparr>x := NewDense (n cf6 + m cf6) 1\<rparr>;
                   cf8 = cf7\<lparr>xBStar := bb\<rparr>
               in (None, cf8\<lparr>remap := init_remap (n cf8) 0 (n cf8 + m cf8) (remap cf8)\<rparr>)))"

definition FindInputVariable :: "Dense \<Rightarrow> int \<Rightarrow> 'r CanonicalForm \<Rightarrow> error + int" where
  "FindInputVariable y forceInputVarIndex cf =
     (case reduced_costs y cf of
        Inl e \<Rightarrow> Inl e
      | Inr r \<Rightarrow>
          if forceInputVarIndex \<noteq> 0 then
            (if forceInputVarIndex < 0 then Inl ErrPanic
             else (case At r 0 (nat forceInputVarIndex) of
                     Inl e \<Rightarrow> Inl e
                   | Inr v \<Rightarrow> if v > 0 then Inr forceInputVarIndex else Inr (- 1)))
          else entering_loop r (snd (Dims r)) 0 0 (- 1))"

text \<open>\<^verbatim>\<open>FindOutputVariable\<close> deletes the key \<open>n + outputVarIndex\<close> before it returns.\<close>

definition FindOutputVariable ::
  "Dense \<Rightarrow> (int \<rightharpoonup> int) CanonicalForm
     \<Rightarrow> error + (real option \<times> int \<times> (int \<rightharpoonup> int) CanonicalForm)" where
  "FindOutputVariable d cf =
     (case leaving_loop d (xBStar cf) (fst (Dims d)) 0 False None (- 1) of
        Inl e \<Rightarrow> Inl e
      | Inr (found, xo, l) \<Rightarrow>
          if \<not> found then Inr (Some (- 1), - 1, cf)
          else Inr (xo, l, cf\<lparr>remap := (remap cf)(int (n cf) + l := None)\<rparr>))"

function copy_loop ::
  "nat \<Rightarrow> nat \<Rightarrow> nat \<Rightarrow> nat \<Rightarrow> 'r CanonicalForm \<Rightarrow> error + 'r CanonicalForm" where
  "copy_loop r i k l cf =
     (if i < r then
        (case At (AN cf) i k of
           Inl e \<Rightarrow> Inl e
         | Inr a \<Rightarrow>
             (case B_Set cf i l a of
                Inl e \<Rightarrow> Inl e
              | Inr cf1 \<Rightarrow> copy_loop r (Suc i) k l cf1))
      else Inr cf)"
  by pat_completeness auto
termination
  by (relation "measure (\<lambda>(r, i, k, l, cf). r - i)") auto

definition Update_map ::
  "Dense \<Rightarrow> Dense \<Rightarrow> real \<Rightarrow> int \<Rightarrow> int \<Rightarrow> 'r CanonicalForm \<Rightarrow> error + 'r CanonicalForm" where
  "Update_map d y xv inputVarIndex outputVarIndex cf =
     (if inputVarIndex < 0 \<or> outputVarIndex < 0 then Inl ErrPanic
      else
        let k = nat inputVarIndex; l = nat outputVarIndex in
        (case Sub (xBStar cf) (Scale xv d) of
           Inl e \<Rightarrow> Inl e
         | Inr xb1 \<Rightarrow>
        (case SetAt xb1 l 0 xv of
           Inl e \<Rightarrow> Inl e
         | Inr xb2 \<Rightarrow>
        let cf1 = cf\<lparr>xBStar := xb2\<rparr> in
        (case copy_loop (fst (Dims d)) 0 k l cf1 of
           Inl e \<Rightarrow> Inl e
         | Inr cf2 \<Rightarrow>
        (case At (cN cf2) 0 k of
           Inl e \<Rightarrow> Inl e
         | Inr ck \<Rightarrow> cB_Set cf2 0 l ck)))))"

definition Iter_map ::
  "int \<Rightarrow> (int \<rightharpoonup> int) CanonicalForm \<Rightarrow> error + (bool \<times> (int \<rightharpoonup> int) CanonicalForm)" where
  "Iter_map forceInputVarIndex cf =
     (case FindY cf of
        Inl e \<Rightarrow> Inl e
      | Inr y \<Rightarrow>
     (case FindInputVariable y forceInputVarIndex cf of
        Inl e \<Rightarrow> Inl e
      | Inr inputVarIndex \<Rightarrow>
     if inputVarIndex = - 1 then Inr (True, cf)
     else
     (case SolveBd inputVarIndex cf of
        Inl e \<Rightarrow> Inl e
      | Inr d \<Rightarrow>
     (case FindOutputVariable d cf of
        Inl e \<Rightarrow> Inl e
      | Inr (xo, outputVarIndex, cf1) \<Rightarrow>
     if outputVarIndex = - 1 then Inr (True, cf1)
     else
       let cf2 = cf1\<lparr>remap := (remap cf1)(inputVarIndex \<mapsto> outputVarIndex)\<rparr> in
       (case xo of
          None \<Rightarrow> Inl ErrPanic
        | Some xv \<Rightarrow>
            (case Update_map d y xv inputVarIndex outputVarIndex cf2 of
               Inl e \<Rightarrow> Inl e
             | Inr cf3 \<Rightarrow> Inr (False, cf3)))))))"

function results_loop_map ::
  "(int \<rightharpoonup> int) CanonicalForm \<Rightarrow> nat \<Rightarrow> nat \<Rightarrow> Dense \<Rightarrow> real \<Rightarrow> error + (Dense \<times> real)" where
  "results_loop_map cf r xInput result tot =
     (if xInput < r then
        (case remap cf (int xInput) of
           None \<Rightarrow> results_loop_map cf r (Suc xInput) result tot
         | Some xOutput \<Rightarrow>
             if xOutput < 0 then Inl ErrPanic
             else
               (case At (xBStar cf) (nat xOutput) 0 of
                  Inl e \<Rightarrow> Inl e
                | Inr v \<Rightarrow>
                    (case SetAt result xInput 0 v of
                       Inl e \<Rightarrow> Inl e
                     | Inr result' \<Rightarrow>
                         if xInput < n cf then
                           (case At (cN cf) 0 xInput of
                              Inl e \<Rightarrow> Inl e
                            | Inr ci \<Rightarrow>
                                results_loop_map cf r (Suc xInput) result' (tot + v * ci))
                         else results_loop_map cf r (Suc xInput) result' tot)))
      else Inr (result, tot))"
  by pat_completeness auto
termination
  by (relation "measure (\<lambda>(cf, r, xInput, result, tot). r - xInput)") auto

definition GetResults_map :: "(int \<rightharpoonup> int) CanonicalForm \<Rightarrow> error + (Dense \<times> real)" where
  "GetResults_map cf =
     (let (r, k) = Dims (x cf) in results_loop_map cf r 0 (NewDense r k) 0)"

fun simplex_loop_map ::
  "nat \<Rightarrow> (int \<rightharpoonup> int) CanonicalForm \<Rightarrow> nat
     \<Rightarrow> error + (nat \<times> (int \<rightharpoonup> int) CanonicalForm)" where
  "simplex_loop_map 0 cf totalIter = Inr (totalIter, cf)"
| "simplex_loop_map (Suc k) cf totalIter =
     (case Iter_map 0 cf of
        Inl e \<Rightarrow> Inl e
      | Inr (fin, cf') \<Rightarrow>
          if fin then Inr (totalIter, cf') else simplex_loop_map k cf' (Suc totalIter))"

definition Simplex_map :: "Dense \<Rightarrow> Dense \<Rightarrow> Dense \<Rightarrow> int \<Rightarrow> error + (nat \<times> Dense \<times> real)" where
  "Simplex_map z AA bb maxIter =
     (case New_map zero_cf_map z AA bb of
        (Some e, _) \<Rightarrow> Inl e
      | (None, cf) \<Rightarrow>
          (case simplex_loop_map (nat maxIter) cf 0 of
             Inl e \<Rightarrow> Inl e
           | Inr (totalIter, cf') \<Rightarrow>
               (case GetResults_map cf' of
                  Inl e \<Rightarrow> Inl e
                | Inr (results, score) \<Rightarrow> Inr (totalIter, results, score))))"

section \<open>Specification predicates\<close>

definition first_row :: "Dense \<Rightarrow> real list" where
  "first_row M = (case M of [] \<Rightarrow> [] | r # _ \<Rightarrow> r)"

definition entering_inv :: "real list \<Rightarrow> nat \<Rightarrow> real \<Rightarrow> int \<Rightarrow> bool" where
  "entering_inv row j mx e \<longleftrightarrow>
     (if e = - 1 then mx = 0 \<and> (\<forall>i<j. row ! i \<le> 0)
      else 0 \<le> e \<and> nat e < j \<and> mx = row ! nat e \<and> 0 < mx
           \<and> (\<forall>i<j. row ! i \<le> mx) \<and> (\<forall>i<nat e. row ! i < mx))"




section \<open>Concrete states\<close>

text \<open>
  The states of end-to-end scenario A (array and map version) after \<^verbatim>\<open>New\<close> and after
  each pivot, and a one-variable problem that is unbounded.
\<close>

definition scenA0 :: "int list CanonicalForm" where
  "scenA0 = \<lparr>n = 4, m = 3,
     A = [[2, 4, 5, 7, 1, 0, 0], [1, 1, 2, 2, 0, 1, 0], [1, 2, 3, 3, 0, 0, 1]],
     x = [[0], [0], [0], [0], [0], [0], [0]], c = [[7, 9, 18, 17, 0, 0, 0]],
     b = [[42], [17], [24]], xBStar = [[42], [17], [24]],
     remap = [0, 1, 2, 3, 4, 5, 6]\<rparr>"

definition scenA1 :: "int list CanonicalForm" where
  "scenA1 = \<lparr>n = 4, m = 3,
     A = [[2, 4, 0, 7, 1, 0, 5], [1, 1, 0, 2, 0, 1, 2], [1, 2, 1, 3, 0, 0, 3]],
     x = [[0], [0], [0], [0], [0], [0], [0]], c = [[7, 9, 0, 17, 0, 0, 18]],
     b = [[42], [17], [24]], xBStar = [[2], [1], [8]],
     remap = [0, 1, 6, 3, 4, 5, 2]\<rparr>"

definition scenA2 :: "int list CanonicalForm" where
  "scenA2 = \<lparr>n = 4, m = 3,
     A = [[0, 4, 0, 7, 1, 2, 5], [1, 1, 0, 2, 0, 1, 2], [0, 2, 1, 3, 0, 1, 3]],
     x = [[0], [0], [0], [0], [0], [0], [0]], c = [[0, 9, 0, 17, 0, 7, 18]],
     b = [[42], [17], [24]], xBStar = [[1], [3], [7]],
     remap = [5, 1, 6, 3, 4, 0, 2]\<rparr>"

definition unbounded0 :: "int list CanonicalForm" where
  "unbounded0 = \<lparr>n = 1, m = 1, A = [[- 1, 1]], x = [[0], [0]], c = [[1, 0]],
     b = [[1]], xBStar = [[1]], remap = [0, 1]\<rparr>"

definition scenM0 :: "(int \<rightharpoonup> int) CanonicalForm" where
  "scenM0 = \<lparr>n = 4, m = 3,
     A = [[2, 4, 5, 7, 1, 0, 0], [1, 1, 2, 2, 0, 1, 0], [1, 2, 3, 3, 0, 0, 1]],
     x = [[0], [0], [0], [0], [0], [0], [0]], c = [[7, 9, 18, 17, 0, 0, 0]],
     b = [[42], [17], [24]], xBStar = [[42], [17], [24]],
     remap = [4 \<mapsto> 0, 5 \<mapsto> 1, 6 \<mapsto> 2]\<rparr>"

definition scenM1 :: "(int \<rightharpoonup> int) CanonicalForm" where
  "scenM1 = \<lparr>n = 4, m = 3,
     A = [[2, 4, 5, 7, 1, 0, 5], [1, 1, 2, 2, 0, 1, 2], [1, 2, 3, 3, 0, 0, 3]],
     x = [[0], [0], [0], [0], [0], [0], [0]], c = [[7, 9, 18, 17, 0, 0, 18]],
     b = [[42], [17], [24]], xBStar = [[2], [1], [8]],
     remap = [4 \<mapsto> 0, 5 \<mapsto> 1, 6 \<mapsto> 2]\<rparr>"

section \<open>Unfolding the model on concrete inputs\<close>

text \<open>
  The loops are unfolded on demand only: their equations rewrite a call into a
  conditional that contains the next call.
\<close>

lemmas loop_simps = add_slack.simps entering_loop.simps leaving_loop.simps swap_loop.simps
  results_loop.simps init_remap.simps copy_loop.simps results_loop_map.simps

declare add_slack.simps [simp del] entering_loop.simps [simp del] leaving_loop.simps [simp del]
  swap_loop.simps [simp del] results_loop.simps [simp del] init_remap.simps [simp del]
  copy_loop.simps [simp del] results_loop_map.simps [simp del]


lemmas prim_defs = Dims_def At_def SetAt_def NewDense_def Grow_def ColView_def Mul_def Sub_def
  Scale_def del_def cofactor_def Inverse_def Solve_def

lemmas view_defs = B_def AN_def cB_def cN_def B_Set_def AN_Set_def cB_Set_def cN_Set_def

lemmas step_defs = FindY_def reduced_costs_def FindEnteringVariable_def SolveBd_def less_inf_def
  FindLeavingVariable_def Update_def Iter_def

lemmas step_map_defs = FindY_def reduced_costs_def FindInputVariable_def SolveBd_def less_inf_def
  FindOutputVariable_def Update_map_def Iter_map_def

section \<open>The inverse of the model\<close>

text \<open>
  The adjugate formula gives a two-sided inverse; shown here for every invertible
  \<open>2 \<times> 2\<close> matrix and for the two bases that scenario A inverts.
\<close>

lemma det_2x2: "det [[p, q], [r, s]] = p * s - q * r"
  by (simp add: del_def eval_nat_numeral)

lemma Inverse_2x2:
  assumes "p * s - q * r \<noteq> 0"
  shows "\<exists>Mi. Inverse [[p, q], [r, s]] = Inr Mi
           \<and> Mul [[p, q], [r, s]] Mi = Inr [[1, 0], [0, 1]]
           \<and> Mul Mi [[p, q], [r, s]] = Inr [[1, 0], [0, 1]]"
proof -
  let ?D = "p * s - q * r"
  have inv: "Inverse [[p, q], [r, s]] = Inr [[s / ?D, - q / ?D], [- r / ?D, p / ?D]]"
    using assms by (simp add: Inverse_def Dims_def cofactor_def del_def eval_nat_numeral)
  have e1: "p * s / ?D - q * r / ?D = 1" "s * p / ?D - q * r / ?D = 1"
    "p * s / ?D - r * q / ?D = 1"
    using assms by (simp_all add: diff_divide_distrib [symmetric] mult.commute)
  have "Mul [[p, q], [r, s]] [[s / ?D, - q / ?D], [- r / ?D, p / ?D]] = Inr [[1, 0], [0, 1]]"
    using assms e1 by (simp add: Mul_def Dims_def eval_nat_numeral field_simps)
  moreover
  have "Mul [[s / ?D, - q / ?D], [- r / ?D, p / ?D]] [[p, q], [r, s]] = Inr [[1, 0], [0, 1]]"
    using assms e1 by (simp add: Mul_def Dims_def eval_nat_numeral field_simps)
  ultimately show ?thesis using inv by simp
qed

lemma Inverse_scenA1:
  "Inverse (B scenA1) = Inr [[1, 0, - 5 / 3], [0, 1, - 2 / 3], [0, 0, 1 / 3]]
   \<and> Mul (B scenA1) [[1, 0, - 5 / 3], [0, 1, - 2 / 3], [0, 0, 1 / 3]]
       = Inr [[1, 0, 0], [0, 1, 0], [0, 0, 1]]"
  by (simp add: scenA1_def prim_defs view_defs eval_nat_numeral)

lemma Inverse_scenA2:
  "Inverse (B scenA2) = Inr [[1, - 1, - 1], [0, 3, - 2], [0, - 1, 1]]
   \<and> Mul (B scenA2) [[1, - 1, - 1], [0, 3, - 2], [0, - 1, 1]]
       = Inr [[1, 0, 0], [0, 1, 0], [0, 0, 1]]"
  by (simp add: scenA2_def prim_defs view_defs eval_nat_numeral)

section \<open>Construction: validation\<close>

lemma add_slack_error: "add_slack i mm nn M = Inl e \<Longrightarrow> e = ErrPanic"
proof (induction i mm nn M rule: add_slack.induct)
  case (1 i mm nn M)
  show ?case
  proof (cases "i < mm")
    case False
    with "1.prems" show ?thesis by (simp add: add_slack.simps)
  next
    case True
    show ?thesis
    proof (cases "SetAt M i (nn + i) 1")
      case (Inl e')
      with True "1.prems" have "e = e'" by (simp add: add_slack.simps)
      moreover from Inl have "e' = ErrPanic"
        by (simp add: SetAt_def split: if_splits)
      ultimately show ?thesis by simp
    next
      case (Inr M')
      with True "1.prems" have "add_slack (Suc i) mm nn M' = Inl e" by (simp add: add_slack.simps)
      with "1.IH" True Inr show ?thesis by simp
    qed
  qed
qed

lemma add_slack_ok:
  "\<forall>j. i \<le> j \<and> j < mm \<longrightarrow> j < length M \<and> nn + j < length (M ! j)
   \<Longrightarrow> \<exists>M'. add_slack i mm nn M = Inr M'"
proof (induction i mm nn M rule: add_slack.induct)
  case (1 i mm nn M)
  show ?case
  proof (cases "i < mm")
    case False
    then show ?thesis by (simp add: add_slack.simps)
  next
    case True
    with "1.prems" have ok: "i < length M" "nn + i < length (M ! i)" by auto
    define M' where "M' = M[i := (M ! i)[nn + i := 1]]"
    from ok have set: "SetAt M i (nn + i) 1 = Inr M'"
      by (simp add: SetAt_def M'_def)
    have "\<forall>j. Suc i \<le> j \<and> j < mm \<longrightarrow> j < length M' \<and> nn + j < length (M' ! j)"
      using "1.prems" by (auto simp: M'_def nth_list_update)
    with "1.IH" [OF True set] obtain M'' where "add_slack (Suc i) mm nn M' = Inr M''"
      by blast
    with True set show ?thesis by (simp add: add_slack.simps)
  qed
qed

text \<open>
  C7 (as amended). \<^verbatim>\<open>New\<close> returns a validation error exactly when the (non-empty)
  objective is not a single row or the constraint matrix has more columns than the
  objective has entries. When the objective has more than one row the receiver is left
  untouched; when the constraint matrix is too wide the receiver is left with its field
  \<open>n\<close> assigned and nothing else changed. For a single-row objective and a non-empty
  constraint matrix whose rows all have exactly as many entries as the objective,
  \<^verbatim>\<open>New\<close> returns no error.
\<close>

theorem New_validation:
  "(cc \<noteq> [] \<longrightarrow>
      ((\<exists>s. fst (New cf cc AA bb) = Some (ErrInvalid s))
        \<longleftrightarrow> (fst (Dims cc) \<noteq> 1 \<or> snd (Dims cc) < snd (Dims AA))))
   \<and> (1 < fst (Dims cc) \<longrightarrow> snd (New cf cc AA bb) = cf)
   \<and> (fst (Dims cc) \<le> 1 \<and> snd (Dims cc) < snd (Dims AA)
        \<longrightarrow> snd (New cf cc AA bb) = cf\<lparr>n := snd (Dims cc)\<rparr>)
   \<and> (fst (Dims cc) = 1 \<and> AA \<noteq> [] \<and> (\<forall>r \<in> set AA. length r = snd (Dims cc))
        \<longrightarrow> fst (New cf cc AA bb) = None)"
proof (intro conjI impI)
  assume ne: "cc \<noteq> []"
  then have rows: "fst (Dims cc) \<noteq> 1 \<longleftrightarrow> 1 < fst (Dims cc)"
    by (cases cc) (simp_all add: Dims_def)
  show "(\<exists>s. fst (New cf cc AA bb) = Some (ErrInvalid s))
          \<longleftrightarrow> (fst (Dims cc) \<noteq> 1 \<or> snd (Dims cc) < snd (Dims AA))"
    unfolding rows
    by (auto simp: New_def Let_def split_beta split: sum.splits dest: add_slack_error)
next
  assume "1 < fst (Dims cc)"
  then show "snd (New cf cc AA bb) = cf"
    by (simp add: New_def Let_def split_beta)
next
  assume "fst (Dims cc) \<le> 1 \<and> snd (Dims cc) < snd (Dims AA)"
  then show "snd (New cf cc AA bb) = cf\<lparr>n := snd (Dims cc)\<rparr>"
    by (simp add: New_def Let_def split_beta)
next
  assume h: "fst (Dims cc) = 1 \<and> AA \<noteq> [] \<and> (\<forall>r \<in> set AA. length r = snd (Dims cc))"
  then have w: "snd (Dims AA) = snd (Dims cc)"
    by (cases AA) (simp_all add: Dims_def)
  have pre: "\<forall>j. 0 \<le> j \<and> j < length AA \<longrightarrow>
          j < length (Grow AA (length AA))
          \<and> snd (Dims cc) + j < length (Grow AA (length AA) ! j)"
    using h by (simp add: Grow_def)
  from add_slack_ok [OF pre] obtain M' where
    "add_slack 0 (length AA) (snd (Dims cc)) (Grow AA (length AA)) = Inr M'"
    by (elim exE)
  moreover have "fst (Dims AA) = length AA"
    by (simp add: Dims_def)
  ultimately show "fst (New cf cc AA bb) = None"
    using h w by (simp add: New_def Let_def split_beta)
qed

theorem New_validation_witness:
  "fst (New zero_cf [[7, 9, 18, 17]] [[2, 4, 5, 7], [1, 1, 2, 2], [1, 2, 3, 3]]
          [[42], [17], [24]]) = None
   \<and> (\<exists>s. fst (New zero_cf [[1, 2], [3, 4]] [[1, 1]] [[1]]) = Some (ErrInvalid s))
   \<and> snd (New zero_cf [[1, 2], [3, 4]] [[1, 1]] [[1]]) = zero_cf
   \<and> (\<exists>s. fst (New zero_cf [[7, 9, 18, 17]] [[2, 4, 5, 7, 1]] [[42]]) = Some (ErrInvalid s))
   \<and> snd (New zero_cf [[7, 9, 18, 17]] [[2, 4, 5, 7, 1]] [[42]]) = zero_cf\<lparr>n := 4\<rparr>"
  using
    New_validation [of "[[7, 9, 18, 17]]" zero_cf
      "[[2, 4, 5, 7], [1, 1, 2, 2], [1, 2, 3, 3]]" "[[42], [17], [24]]"]
    New_validation [of "[[1, 2], [3, 4]]" zero_cf "[[1, 1]]" "[[1]]"]
    New_validation [of "[[7, 9, 18, 17]]" zero_cf "[[2, 4, 5, 7, 1]]" "[[42]]"]
  by (simp add: Dims_def)

text \<open>
  C7 (as stated) fails where the constraint matrix is too wide: the error is returned
  after \<open>n\<close> has been assigned, so the receiver is not what it was.
\<close>

theorem New_error_after_assignment_counterexample:
  "fst (New zero_cf [[7, 9, 18, 17]] [[2, 4, 5, 7, 1]] [[42]])
     = Some (ErrInvalid ''A dims.c > z dims.r'')
   \<and> snd (New zero_cf [[7, 9, 18, 17]] [[2, 4, 5, 7, 1]] [[42]]) \<noteq> zero_cf"
  by (simp add: New_def zero_cf_def Dims_def)

section \<open>End-to-end scenario A\<close>



lemma Iter_scenA1: "Iter 0 scenA1 = Inr (False, scenA2)"
  by (simp add: scenA1_def scenA2_def prim_defs view_defs step_defs loop_simps eval_nat_numeral)

lemma Iter_scenA2: "Iter 0 scenA2 = Inr (True, scenA2)"
  by (simp add: scenA2_def prim_defs view_defs step_defs loop_simps eval_nat_numeral)






section \<open>Terminal states\<close>

text \<open>
  C6. When \<^verbatim>\<open>Iter\<close> returns \<open>end = true\<close> (no entering or no leaving candidate) it has
  written nothing: the state is the one it was called on, calling \<^verbatim>\<open>Iter\<close> again gives
  the same answer, and \<^verbatim>\<open>GetResults\<close>, which only reads the state, gives the same
  solution and objective value.
\<close>

theorem Iter_terminal_idempotent:
  assumes "Iter f cf = Inr (True, cf')"
  shows "cf' = cf \<and> Iter f cf' = Inr (True, cf') \<and> GetResults cf' = GetResults cf"
proof -
  from assms have "cf' = cf"
    by (auto simp: Iter_def Let_def split: sum.splits prod.splits option.splits if_splits)
  with assms show ?thesis by simp
qed

lemma Iter_unbounded0: "Iter 0 unbounded0 = Inr (True, unbounded0)"
  by (simp add: unbounded0_def prim_defs view_defs step_defs loop_simps eval_nat_numeral)

theorem Iter_terminal_idempotent_witness:
  "Iter 0 scenA2 = Inr (True, scenA2) \<and> Iter 0 unbounded0 = Inr (True, unbounded0)"
  using Iter_terminal_idempotent [OF Iter_scenA2] Iter_terminal_idempotent [OF Iter_unbounded0]
  by simp

section \<open>A forced entering index\<close>

text \<open>
  C10. With a forced entering index \<open>f \<noteq> 0\<close> (in range) whose reduced cost is not
  positive, \<^verbatim>\<open>Iter\<close> returns \<open>end = true\<close> without error and leaves the state as it was,
  whatever the other reduced costs are.
\<close>

theorem Iter_forced_nonpositive:
  assumes "FindY cf = Inr y" and "reduced_costs y cf = Inr r"
    and "0 < f" and "At r 0 (nat f) = Inr v" and "v \<le> 0"
  shows "Iter f cf = Inr (True, cf)"
  using assms by (simp add: Iter_def FindEnteringVariable_def)

lemma FindY_scenA1: "FindY scenA1 = Inr [[0, 0, 6]]"
  by (simp add: scenA1_def prim_defs view_defs FindY_def eval_nat_numeral)

lemma reduced_costs_scenA1: "reduced_costs [[0, 0, 6]] scenA1 = Inr [[1, - 3, - 6, - 1]]"
  by (simp add: scenA1_def prim_defs view_defs reduced_costs_def eval_nat_numeral)

theorem Iter_forced_nonpositive_witness:
  "reduced_costs [[0, 0, 6]] scenA1 = Inr [[1, - 3, - 6, - 1]]
   \<and> Iter 1 scenA1 = Inr (True, scenA1) \<and> Iter 0 scenA1 = Inr (False, scenA2)"
proof -
  have "At [[1, - 3, - 6, - 1]] 0 (nat 1) = Inr (- 3)"
    by (simp add: At_def)
  from Iter_forced_nonpositive [OF FindY_scenA1 reduced_costs_scenA1 _ this]
  have "Iter 1 scenA1 = Inr (True, scenA1)" by simp
  then show ?thesis
    by (simp add: reduced_costs_scenA1 Iter_scenA1)
qed

section \<open>The two remap strategies\<close>


section \<open>Entering variable\<close>

lemma At_first_row: "j < length (first_row r) \<Longrightarrow> At r 0 j = Inr (first_row r ! j)"
  by (cases r) (simp_all add: first_row_def At_def)

lemma entering_loop_spec:
  assumes "k \<le> length (first_row r)" and "j \<le> k" and "entering_inv (first_row r) j mx e"
  shows "\<exists>e' mx'. entering_loop r k j mx e = Inr e' \<and> entering_inv (first_row r) k mx' e'"
  using assms
proof (induction r k j mx e rule: entering_loop.induct)
  case (1 r k j mx e)
  show ?case
  proof (cases "j < k")
    case False
    with "1.prems" have "j = k" by simp
    with "1.prems" show ?thesis
      by (auto simp: entering_loop.simps)
  next
    case True
    with "1.prems" have at: "At r 0 j = Inr (first_row r ! j)"
      by (simp add: At_first_row)
    let ?v = "first_row r ! j"
    show ?thesis
    proof (cases "0 < ?v \<and> mx < ?v")
      case big: True
      have inv: "entering_inv (first_row r) (Suc j) ?v (int j)"
        using "1.prems"(3) big
        by (auto simp: entering_inv_def less_Suc_eq split: if_splits)
      from "1.IH"(1) [OF True at _ "1.prems"(1) _ inv] big True
      have "\<exists>e' mx'. entering_loop r k (Suc j) ?v (int j) = Inr e'
              \<and> entering_inv (first_row r) k mx' e'"
        by simp
      with True at big show ?thesis
        by (simp add: entering_loop.simps [of r k j])
    next
      case small: False
      have inv: "entering_inv (first_row r) (Suc j) mx e"
        using "1.prems"(3) small
        by (auto simp: entering_inv_def less_Suc_eq split: if_splits)
      from "1.IH"(2) [OF True at _ "1.prems"(1) _ inv] small True
      have "\<exists>e' mx'. entering_loop r k (Suc j) mx e = Inr e'
              \<and> entering_inv (first_row r) k mx' e'"
        by simp
      with True at small show ?thesis
        by (auto simp: entering_loop.simps [of r k j])
    qed
  qed
qed

lemma Dims_first_row: "snd (Dims r) = length (first_row r)"
  by (cases r) (simp_all add: Dims_def first_row_def)

text \<open>
  C3. With the forced index 0 (unforced), \<^verbatim>\<open>FindEnteringVariable\<close> returns \<open>-1\<close> when no
  reduced cost is strictly positive, and otherwise the first index at which the reduced
  cost row \<open>cN - y\<cdot>AN\<close> takes its (positive) maximum; when it returns \<open>-1\<close>, \<^verbatim>\<open>Iter\<close>
  returns \<open>end = true\<close> and the state is the one it was called on.
\<close>

theorem FindEnteringVariable_largest:
  assumes "reduced_costs y cf = Inr r" and "row = first_row r"
  shows "\<exists>e. FindEnteringVariable y 0 cf = Inr e
    \<and> ((\<forall>j<length row. row ! j \<le> 0) \<longrightarrow> e = - 1)
    \<and> ((\<exists>j<length row. 0 < row ! j) \<longrightarrow>
          0 \<le> e \<and> nat e < length row \<and> 0 < row ! nat e
          \<and> (\<forall>j<length row. row ! j \<le> row ! nat e)
          \<and> (\<forall>j<nat e. row ! j < row ! nat e))
    \<and> (FindY cf = Inr y \<and> e = - 1 \<longrightarrow> Iter 0 cf = Inr (True, cf))"
proof -
  have "entering_inv row 0 0 (- 1)"
    by (simp add: entering_inv_def)
  with entering_loop_spec [of "length row" r 0 0 "- 1"] assms(2)
  obtain e mx where loop: "entering_loop r (length row) 0 0 (- 1) = Inr e"
    and inv: "entering_inv row (length row) mx e"
    by auto
  from loop assms have fe: "FindEnteringVariable y 0 cf = Inr e"
    by (simp add: FindEnteringVariable_def Dims_first_row)
  have "(\<forall>j<length row. row ! j \<le> 0) \<longrightarrow> e = - 1"
    using inv by (auto simp: entering_inv_def split: if_splits)
  moreover have "(\<exists>j<length row. 0 < row ! j) \<longrightarrow>
          0 \<le> e \<and> nat e < length row \<and> 0 < row ! nat e
          \<and> (\<forall>j<length row. row ! j \<le> row ! nat e)
          \<and> (\<forall>j<nat e. row ! j < row ! nat e)"
    using inv by (auto simp: entering_inv_def not_less split: if_splits)
  moreover have "FindY cf = Inr y \<and> e = - 1 \<longrightarrow> Iter 0 cf = Inr (True, cf)"
    using fe by (simp add: Iter_def)
  ultimately show ?thesis
    using fe by blast
qed

lemma FindY_scenA2: "FindY scenA2 = Inr [[0, 3, 4]]"
  by (simp add: scenA2_def prim_defs view_defs FindY_def eval_nat_numeral)

lemma reduced_costs_scenA2: "reduced_costs [[0, 3, 4]] scenA2 = Inr [[- 3, - 2, - 4, - 1]]"
  by (simp add: scenA2_def prim_defs view_defs reduced_costs_def eval_nat_numeral)

theorem FindEnteringVariable_largest_witness:
  "FindEnteringVariable [[0, 0, 6]] 0 scenA1 = Inr 0
   \<and> FindEnteringVariable [[0, 3, 4]] 0 scenA2 = Inr (- 1)
   \<and> Iter 0 scenA2 = Inr (True, scenA2)"
proof -
  from FindEnteringVariable_largest [OF reduced_costs_scenA1 refl]
  obtain e where e: "FindEnteringVariable [[0, 0, 6]] 0 scenA1 = Inr e"
    and "(\<exists>j<length (first_row [[1, - 3, - 6, - 1]]). 0 < first_row [[1, - 3, - 6, - 1]] ! j) \<longrightarrow>
          (\<forall>j<nat e. first_row [[1, - 3, - 6, - 1]] ! j < first_row [[1, - 3, - 6, - 1]] ! nat e)
          \<and> (\<forall>j<length (first_row [[1, - 3, - 6, - 1]]).
                 first_row [[1, - 3, - 6, - 1]] ! j \<le> first_row [[1, - 3, - 6, - 1]] ! nat e)
          \<and> 0 \<le> e \<and> nat e < length (first_row [[1, - 3, - 6, - 1]])"
    by blast
  then have lt: "\<forall>j<nat e. [1, - 3, - 6, - 1 :: real] ! j < [1, - 3, - 6, - 1] ! nat e"
    and "0 \<le> e" and "nat e < 4"
    by (auto simp: first_row_def)
  from \<open>nat e < 4\<close> consider "nat e = 0" | "nat e = 1" | "nat e = 2" | "nat e = 3"
    by linarith
  then have "nat e = 0"
    using lt [rule_format, of 0] by cases simp_all
  with \<open>0 \<le> e\<close> have "e = 0" by simp
  moreover
  from FindEnteringVariable_largest [OF reduced_costs_scenA2 refl]
  obtain e' where e': "FindEnteringVariable [[0, 3, 4]] 0 scenA2 = Inr e'"
    and none: "(\<forall>j<length (first_row [[- 3, - 2, - 4, - 1]]).
                  first_row [[- 3, - 2, - 4, - 1]] ! j \<le> 0) \<longrightarrow> e' = - 1"
    and it: "FindY scenA2 = Inr [[0, 3, 4]] \<and> e' = - 1 \<longrightarrow> Iter 0 scenA2 = Inr (True, scenA2)"
    by blast
  have "\<forall>j<4. [- 3, - 2, - 4, - 1 :: real] ! j \<le> 0"
    by (simp add: less_Suc_eq eval_nat_numeral)
  with none have "e' = - 1"
    by (simp add: first_row_def)
  ultimately show ?thesis
    using e e' it FindY_scenA2 by simp
qed

section \<open>Leaving variable\<close>















section \<open>The pivot update\<close>

lemma B_Set_Inr:
  "B_Set cf i j v = Inr cf' \<longleftrightarrow>
     i < m cf \<and> j < m cf \<and> i < length (A cf) \<and> n cf + j < length (A cf ! i)
     \<and> cf' = cf\<lparr>A := (A cf)[i := (A cf ! i)[n cf + j := v]]\<rparr>"
  by (auto simp: B_Set_def SetAt_def)

lemma AN_Set_Inr:
  "AN_Set cf i j v = Inr cf' \<longleftrightarrow>
     i < m cf \<and> j < n cf \<and> i < length (A cf) \<and> j < length (A cf ! i)
     \<and> cf' = cf\<lparr>A := (A cf)[i := (A cf ! i)[j := v]]\<rparr>"
  by (auto simp: AN_Set_def SetAt_def)

lemma cB_Set_Inr:
  "cB_Set cf 0 j v = Inr cf' \<longleftrightarrow>
     j < m cf \<and> c cf \<noteq> [] \<and> n cf + j < length (c cf ! 0)
     \<and> cf' = cf\<lparr>c := (c cf)[0 := (c cf ! 0)[n cf + j := v]]\<rparr>"
  by (auto simp: cB_Set_def SetAt_def)

lemma cN_Set_Inr:
  "cN_Set cf 0 j v = Inr cf' \<longleftrightarrow>
     j < n cf \<and> c cf \<noteq> [] \<and> j < length (c cf ! 0)
     \<and> cf' = cf\<lparr>c := (c cf)[0 := (c cf ! 0)[j := v]]\<rparr>"
  by (auto simp: cN_Set_def SetAt_def)

lemma At_AN:
  "At (AN cf) i k = Inr a \<longleftrightarrow>
     i < m cf \<and> i < length (A cf) \<and> k < n cf \<and> k < length (A cf ! i) \<and> a = A cf ! i ! k"
  by (auto simp: At_def AN_def)

lemma At_B:
  "At (B cf) i l = Inr a \<longleftrightarrow>
     i < m cf \<and> i < length (A cf) \<and> l < m cf \<and> n cf + l < length (A cf ! i)
     \<and> a = A cf ! i ! (n cf + l)"
  by (auto simp: At_def B_def)

lemma At_cN:
  "At (cN cf) 0 k = Inr a \<longleftrightarrow>
     c cf \<noteq> [] \<and> k < n cf \<and> k < length (c cf ! 0) \<and> a = c cf ! 0 ! k"
  by (cases "c cf") (auto simp: At_def cN_def)

lemma At_cB:
  "At (cB cf) 0 l = Inr a \<longleftrightarrow>
     c cf \<noteq> [] \<and> l < m cf \<and> n cf + l < length (c cf ! 0) \<and> a = c cf ! 0 ! (n cf + l)"
  by (cases "c cf") (auto simp: At_def cB_def)

lemma swap_loop_spec:
  assumes "swap_loop r i k l lc cf = Inr cf'"
  shows "cf' = cf\<lparr>A := A cf'\<rparr> \<and> length (A cf') = length (A cf)
    \<and> (\<forall>j<length (A cf). A cf' ! j =
          (if i \<le> j \<and> j < r then (A cf ! j)[n cf + l := A cf ! j ! k, k := lc ! j ! 0]
           else A cf ! j))
    \<and> (\<forall>j. i \<le> j \<and> j < r \<longrightarrow>
          j < m cf \<and> j < length (A cf) \<and> k < n cf \<and> l < m cf
          \<and> n cf + l < length (A cf ! j) \<and> j < length lc \<and> lc ! j \<noteq> [])"
  using assms
proof (induction r i k l lc cf rule: swap_loop.induct)
  case (1 r i k l lc cf)
  show ?case
  proof (cases "i < r")
    case False
    with "1.prems" have "cf' = cf"
      by (simp add: swap_loop.simps)
    with False show ?thesis by auto
  next
    case True
    from "1.prems" True obtain a where a: "At (AN cf) i k = Inr a"
      by (cases "At (AN cf) i k") (simp_all add: swap_loop.simps [of r i])
    from "1.prems" True a obtain cf1 where cf1: "B_Set cf i l a = Inr cf1"
      by (cases "B_Set cf i l a") (simp_all add: swap_loop.simps [of r i])
    from "1.prems" True a cf1 obtain v where v: "At lc i 0 = Inr v"
      by (cases "At lc i 0") (simp_all add: swap_loop.simps [of r i])
    from "1.prems" True a cf1 v obtain cf2 where cf2: "AN_Set cf1 i k v = Inr cf2"
      by (cases "AN_Set cf1 i k v") (simp_all add: swap_loop.simps [of r i])
    from "1.prems" True a cf1 v cf2 have run: "swap_loop r (Suc i) k l lc cf2 = Inr cf'"
      by (simp add: swap_loop.simps [of r i])
    note IH = "1.IH" [OF True a cf1 v cf2 run]
    from a have fa: "i < m cf" "i < length (A cf)" "k < n cf" "k < length (A cf ! i)"
      "a = A cf ! i ! k"
      by (simp_all add: At_AN)
    from cf1 have f1: "l < m cf" "n cf + l < length (A cf ! i)"
      "cf1 = cf\<lparr>A := (A cf)[i := (A cf ! i)[n cf + l := a]]\<rparr>"
      by (simp_all add: B_Set_Inr)
    from v have fv: "i < length lc" "lc ! i \<noteq> []" "v = lc ! i ! 0"
      by (auto simp: At_def split: if_splits)
    from cf2 f1 fa have f2: "cf2 = cf\<lparr>A := (A cf)[i := (A cf ! i)[n cf + l := a, k := v]]\<rparr>"
      by (simp add: AN_Set_Inr)
    have g1: "cf' = cf\<lparr>A := A cf'\<rparr>"
      using IH f2 by (metis CanonicalForm.surjective CanonicalForm.update_convs(3))
    have g2: "length (A cf') = length (A cf)"
      using IH f2 by simp
    have g3: "\<forall>j<length (A cf). A cf' ! j =
          (if i \<le> j \<and> j < r then (A cf ! j)[n cf + l := A cf ! j ! k, k := lc ! j ! 0]
           else A cf ! j)"
    proof (intro allI impI)
      fix j assume j: "j < length (A cf)"
      with IH f2 have "A cf' ! j =
          (if Suc i \<le> j \<and> j < r then (A cf2 ! j)[n cf + l := A cf2 ! j ! k, k := lc ! j ! 0]
           else A cf2 ! j)"
        by simp
      with f2 fa fv j True show "A cf' ! j =
          (if i \<le> j \<and> j < r then (A cf ! j)[n cf + l := A cf ! j ! k, k := lc ! j ! 0]
           else A cf ! j)"
        by (cases "j = i") (auto simp: nth_list_update)
    qed
    have g4: "\<forall>j. i \<le> j \<and> j < r \<longrightarrow>
          j < m cf \<and> j < length (A cf) \<and> k < n cf \<and> l < m cf
          \<and> n cf + l < length (A cf ! j) \<and> j < length lc \<and> lc ! j \<noteq> []"
    proof (intro allI impI)
      fix j assume j: "i \<le> j \<and> j < r"
      show "j < m cf \<and> j < length (A cf) \<and> k < n cf \<and> l < m cf
          \<and> n cf + l < length (A cf ! j) \<and> j < length lc \<and> lc ! j \<noteq> []"
      proof (cases "j = i")
        case True
        with fa f1 fv show ?thesis by simp
      next
        case False
        with j have "Suc i \<le> j \<and> j < r" by simp
        with IH have "j < m cf2 \<and> j < length (A cf2) \<and> k < n cf2 \<and> l < m cf2
          \<and> n cf2 + l < length (A cf2 ! j) \<and> j < length lc \<and> lc ! j \<noteq> []"
          by blast
        with f2 False show ?thesis by (simp add: nth_list_update)
      qed
    qed
    from g1 g2 g3 g4 show ?thesis by blast
  qed
qed


lemma SetAt_Inr:
  "SetAt M i j v = Inr M' \<longleftrightarrow> i < length M \<and> j < length (M ! i) \<and> M' = M[i := (M ! i)[j := v]]"
  by (auto simp: SetAt_def)

lemma Update_spec:
  assumes "Update d y xv (int k) (int l) cf = Inr cf'"
  shows "\<exists>xb. Sub (xBStar cf) (Scale xv d) = Inr xb \<and> l < length xb \<and> xb ! l \<noteq> []
    \<and> xBStar cf' = xb[l := (xb ! l)[0 := xv]]
    \<and> n cf' = n cf \<and> m cf' = m cf \<and> x cf' = x cf \<and> b cf' = b cf \<and> remap cf' = remap cf
    \<and> length (A cf') = length (A cf)
    \<and> (\<forall>j<length (A cf). A cf' ! j =
          (if j < length d
           then (A cf ! j)[n cf + l := A cf ! j ! k, k := A cf ! j ! (n cf + l)]
           else A cf ! j))
    \<and> c cf' = (c cf)[0 := (c cf ! 0)[n cf + l := c cf ! 0 ! k, k := c cf ! 0 ! (n cf + l)]]
    \<and> k < n cf \<and> l < m cf \<and> c cf \<noteq> [] \<and> k < length (c cf ! 0)
    \<and> n cf + l < length (c cf ! 0)
    \<and> (\<forall>j<length d. j < m cf \<and> j < length (A cf) \<and> k < length (A cf ! j)
          \<and> n cf + l < length (A cf ! j))"
proof -
  from assms obtain xb1 where xb1: "Sub (xBStar cf) (Scale xv d) = Inr xb1"
    by (cases "Sub (xBStar cf) (Scale xv d)") (simp_all add: Update_def)
  from assms xb1 obtain xb2 where xb2: "SetAt xb1 l 0 xv = Inr xb2"
    by (cases "SetAt xb1 l 0 xv") (simp_all add: Update_def)
  define cf1 where "cf1 = cf\<lparr>xBStar := xb2\<rparr>"
  from assms xb1 xb2 obtain lc where lc: "ColView (B cf1) l = Inr lc"
    by (cases "ColView (B cf1) l") (simp_all add: Update_def cf1_def)
  from assms xb1 xb2 lc obtain lC where lC: "At (cB cf1) 0 l = Inr lC"
    by (cases "At (cB cf1) 0 l") (simp_all add: Update_def cf1_def)
  from assms xb1 xb2 lc lC obtain cf2 where
    cf2: "swap_loop (length d) 0 k l lc cf1 = Inr cf2"
    by (cases "swap_loop (length d) 0 k l lc cf1") (simp_all add: Update_def cf1_def Dims_def)
  from assms xb1 xb2 lc lC cf2 obtain ck where ck: "At (cN cf2) 0 k = Inr ck"
    by (cases "At (cN cf2) 0 k") (simp_all add: Update_def cf1_def Dims_def)
  from assms xb1 xb2 lc lC cf2 ck obtain cf3 where cf3: "cB_Set cf2 0 l ck = Inr cf3"
    by (cases "cB_Set cf2 0 l ck") (simp_all add: Update_def cf1_def Dims_def)
  from assms xb1 xb2 lc lC cf2 ck cf3 have fin: "cN_Set cf3 0 k lC = Inr cf'"
    by (simp add: Update_def cf1_def Dims_def)
  note sw = swap_loop_spec [OF cf2]
  from xb2 have s2: "l < length xb1" "xb1 ! l \<noteq> []" "xb2 = xb1[l := (xb1 ! l)[0 := xv]]"
    by (auto simp: SetAt_Inr)
  from lc have lcd: "lc = map (\<lambda>r. [r ! l]) (B cf1)"
    by (simp add: ColView_def split: if_splits)
  from lC have flC: "c cf \<noteq> []" "l < m cf" "n cf + l < length (c cf ! 0)"
    "lC = c cf ! 0 ! (n cf + l)"
    by (simp_all add: At_cB cf1_def)
  from sw have c2: "c cf2 = c cf" "n cf2 = n cf" "m cf2 = m cf" "xBStar cf2 = xb2"
    "x cf2 = x cf" "b cf2 = b cf" "remap cf2 = remap cf"
    by (metis CanonicalForm.select_convs CanonicalForm.update_convs(3,7) CanonicalForm.surjective cf1_def)+
  from ck c2 have fck: "k < n cf" "k < length (c cf ! 0)" "ck = c cf ! 0 ! k"
    by (simp_all add: At_cN)
  from cf3 c2 have f3: "cf3 = cf2\<lparr>c := (c cf)[0 := (c cf ! 0)[n cf + l := ck]]\<rparr>"
    by (simp add: cB_Set_Inr)
  from fin f3 c2 flC have f4:
    "cf' = cf2\<lparr>c := (c cf)[0 := (c cf ! 0)[n cf + l := ck, k := lC]]\<rparr>"
    by (simp add: cN_Set_Inr)
  have rows: "\<forall>j<length d. j < m cf \<and> j < length (A cf) \<and> k < length (A cf ! j)
          \<and> n cf + l < length (A cf ! j)"
    using sw by (auto simp: cf1_def)
  have lcj: "\<forall>j<length d. lc ! j ! 0 = A cf ! j ! (n cf + l)"
    using rows flC(2) by (auto simp: lcd B_def cf1_def)
  have A': "\<forall>j<length (A cf). A cf' ! j =
          (if j < length d
           then (A cf ! j)[n cf + l := A cf ! j ! k, k := A cf ! j ! (n cf + l)]
           else A cf ! j)"
    using sw lcj f4 by (auto simp: cf1_def)
  have len: "length (A cf') = length (A cf)"
    using sw f4 by (simp add: cf1_def)
  from f4 c2 s2 flC fck have rest: "xBStar cf' = xb1[l := (xb1 ! l)[0 := xv]]"
    "n cf' = n cf" "m cf' = m cf" "x cf' = x cf" "b cf' = b cf" "remap cf' = remap cf"
    "c cf' = (c cf)[0 := (c cf ! 0)[n cf + l := c cf ! 0 ! k, k := c cf ! 0 ! (n cf + l)]]"
    by simp_all
  from xb1 s2 rest len A' fck flC rows show ?thesis
    by blast
qed

section \<open>Feasibility of the basic solution\<close>










section \<open>The pivot update of the map version\<close>

lemma copy_loop_spec:
  assumes "copy_loop r i k l cf = Inr cf'"
  shows "cf' = cf\<lparr>A := A cf'\<rparr> \<and> length (A cf') = length (A cf)
    \<and> (\<forall>j<length (A cf). A cf' ! j =
          (if i \<le> j \<and> j < r then (A cf ! j)[n cf + l := A cf ! j ! k] else A cf ! j))
    \<and> (\<forall>j. i \<le> j \<and> j < r \<longrightarrow>
          j < m cf \<and> j < length (A cf) \<and> k < n cf \<and> k < length (A cf ! j) \<and> l < m cf
          \<and> n cf + l < length (A cf ! j))"
  using assms
proof (induction r i k l cf rule: copy_loop.induct)
  case (1 r i k l cf)
  show ?case
  proof (cases "i < r")
    case False
    with "1.prems" have "cf' = cf"
      by (simp add: copy_loop.simps)
    with False show ?thesis by auto
  next
    case True
    from "1.prems" True obtain a where a: "At (AN cf) i k = Inr a"
      by (cases "At (AN cf) i k") (simp_all add: copy_loop.simps [of r i])
    from "1.prems" True a obtain cf1 where cf1: "B_Set cf i l a = Inr cf1"
      by (cases "B_Set cf i l a") (simp_all add: copy_loop.simps [of r i])
    from "1.prems" True a cf1 have run: "copy_loop r (Suc i) k l cf1 = Inr cf'"
      by (simp add: copy_loop.simps [of r i])
    note IH = "1.IH" [OF True a cf1 run]
    from a have fa: "i < m cf" "i < length (A cf)" "k < n cf" "k < length (A cf ! i)"
      "a = A cf ! i ! k"
      by (simp_all add: At_AN)
    from cf1 have f1: "l < m cf" "n cf + l < length (A cf ! i)"
      "cf1 = cf\<lparr>A := (A cf)[i := (A cf ! i)[n cf + l := a]]\<rparr>"
      by (simp_all add: B_Set_Inr)
    have g1: "cf' = cf\<lparr>A := A cf'\<rparr>"
      using IH f1 by (metis CanonicalForm.surjective CanonicalForm.update_convs(3))
    have g2: "length (A cf') = length (A cf)"
      using IH f1 by simp
    have g3: "\<forall>j<length (A cf). A cf' ! j =
          (if i \<le> j \<and> j < r then (A cf ! j)[n cf + l := A cf ! j ! k] else A cf ! j)"
    proof (intro allI impI)
      fix j assume j: "j < length (A cf)"
      with IH f1 have "A cf' ! j =
          (if Suc i \<le> j \<and> j < r then (A cf1 ! j)[n cf + l := A cf1 ! j ! k] else A cf1 ! j)"
        by simp
      with f1 fa j True show "A cf' ! j =
          (if i \<le> j \<and> j < r then (A cf ! j)[n cf + l := A cf ! j ! k] else A cf ! j)"
        by (cases "j = i") (auto simp: nth_list_update)
    qed
    have g4: "\<forall>j. i \<le> j \<and> j < r \<longrightarrow>
          j < m cf \<and> j < length (A cf) \<and> k < n cf \<and> k < length (A cf ! j) \<and> l < m cf
          \<and> n cf + l < length (A cf ! j)"
    proof (intro allI impI)
      fix j assume j: "i \<le> j \<and> j < r"
      show "j < m cf \<and> j < length (A cf) \<and> k < n cf \<and> k < length (A cf ! j) \<and> l < m cf
          \<and> n cf + l < length (A cf ! j)"
      proof (cases "j = i")
        case True
        with fa f1 show ?thesis by simp
      next
        case False
        with j have "Suc i \<le> j \<and> j < r" by simp
        with IH have "j < m cf1 \<and> j < length (A cf1) \<and> k < n cf1 \<and> k < length (A cf1 ! j)
          \<and> l < m cf1 \<and> n cf1 + l < length (A cf1 ! j)"
          by blast
        with f1 False show ?thesis by (simp add: nth_list_update)
      qed
    qed
    from g1 g2 g3 g4 show ?thesis by blast
  qed
qed

lemma Update_map_spec:
  assumes "Update_map d y xv (int k) (int l) cf = Inr cf'"
  shows "\<exists>xb. Sub (xBStar cf) (Scale xv d) = Inr xb \<and> l < length xb \<and> xb ! l \<noteq> []
    \<and> xBStar cf' = xb[l := (xb ! l)[0 := xv]]
    \<and> n cf' = n cf \<and> m cf' = m cf \<and> x cf' = x cf \<and> b cf' = b cf \<and> remap cf' = remap cf
    \<and> length (A cf') = length (A cf)
    \<and> (\<forall>j<length (A cf). A cf' ! j =
          (if j < length d then (A cf ! j)[n cf + l := A cf ! j ! k] else A cf ! j))
    \<and> c cf' = (c cf)[0 := (c cf ! 0)[n cf + l := c cf ! 0 ! k]]
    \<and> k < n cf \<and> l < m cf \<and> c cf \<noteq> [] \<and> k < length (c cf ! 0)
    \<and> n cf + l < length (c cf ! 0)
    \<and> (\<forall>j<length d. j < m cf \<and> j < length (A cf) \<and> k < length (A cf ! j)
          \<and> n cf + l < length (A cf ! j))"
proof -
  from assms obtain xb1 where xb1: "Sub (xBStar cf) (Scale xv d) = Inr xb1"
    by (cases "Sub (xBStar cf) (Scale xv d)") (simp_all add: Update_map_def)
  from assms xb1 obtain xb2 where xb2: "SetAt xb1 l 0 xv = Inr xb2"
    by (cases "SetAt xb1 l 0 xv") (simp_all add: Update_map_def)
  define cf1 where "cf1 = cf\<lparr>xBStar := xb2\<rparr>"
  from assms xb1 xb2 obtain cf2 where
    cf2: "copy_loop (length d) 0 k l cf1 = Inr cf2"
    by (cases "copy_loop (length d) 0 k l cf1") (simp_all add: Update_map_def cf1_def Dims_def)
  from assms xb1 xb2 cf2 obtain ck where ck: "At (cN cf2) 0 k = Inr ck"
    by (cases "At (cN cf2) 0 k") (simp_all add: Update_map_def cf1_def Dims_def)
  from assms xb1 xb2 cf2 ck have fin: "cB_Set cf2 0 l ck = Inr cf'"
    by (simp add: Update_map_def cf1_def Dims_def)
  note cp = copy_loop_spec [OF cf2]
  from xb2 have s2: "l < length xb1" "xb1 ! l \<noteq> []" "xb2 = xb1[l := (xb1 ! l)[0 := xv]]"
    by (auto simp: SetAt_Inr)
  from cp have c2: "c cf2 = c cf" "n cf2 = n cf" "m cf2 = m cf" "xBStar cf2 = xb2"
    "x cf2 = x cf" "b cf2 = b cf" "remap cf2 = remap cf"
    by (metis CanonicalForm.select_convs CanonicalForm.update_convs(3,7) CanonicalForm.surjective cf1_def)+
  from ck c2 have fck: "c cf \<noteq> []" "k < n cf" "k < length (c cf ! 0)" "ck = c cf ! 0 ! k"
    by (simp_all add: At_cN)
  from fin c2 have f3: "l < m cf" "n cf + l < length (c cf ! 0)"
    "cf' = cf2\<lparr>c := (c cf)[0 := (c cf ! 0)[n cf + l := ck]]\<rparr>"
    by (simp_all add: cB_Set_Inr)
  have rows: "\<forall>j<length d. j < m cf \<and> j < length (A cf) \<and> k < length (A cf ! j)
          \<and> n cf + l < length (A cf ! j)"
    using cp by (auto simp: cf1_def)
  have A': "\<forall>j<length (A cf). A cf' ! j =
          (if j < length d then (A cf ! j)[n cf + l := A cf ! j ! k] else A cf ! j)"
    using cp f3 by (auto simp: cf1_def)
  have len: "length (A cf') = length (A cf)"
    using cp f3 by (simp add: cf1_def)
  from f3 c2 s2 fck have rest: "xBStar cf' = xb1[l := (xb1 ! l)[0 := xv]]"
    "n cf' = n cf" "m cf' = m cf" "x cf' = x cf" "b cf' = b cf" "remap cf' = remap cf"
    "c cf' = (c cf)[0 := (c cf ! 0)[n cf + l := c cf ! 0 ! k]]"
    by simp_all
  from xb1 s2 rest len A' fck f3 rows show ?thesis
    by blast
qed

lemma B_nth:
  "i < m cf \<Longrightarrow> i < length (A cf) \<Longrightarrow> l < m cf \<Longrightarrow> n cf + l < length (A cf ! i)
   \<Longrightarrow> B cf ! i ! l = A cf ! i ! (n cf + l)"
  by (simp add: B_def)

lemma AN_nth:
  "i < m cf \<Longrightarrow> i < length (A cf) \<Longrightarrow> k < n cf \<Longrightarrow> k < length (A cf ! i)
   \<Longrightarrow> AN cf ! i ! k = A cf ! i ! k"
  by (simp add: AN_def)

lemma cB_nth:
  "c cf \<noteq> [] \<Longrightarrow> l < m cf \<Longrightarrow> n cf + l < length (c cf ! 0)
   \<Longrightarrow> cB cf ! 0 ! l = c cf ! 0 ! (n cf + l)"
  by (cases "c cf") (simp_all add: cB_def)

lemma cN_nth:
  "c cf \<noteq> [] \<Longrightarrow> k < n cf \<Longrightarrow> k < length (c cf ! 0) \<Longrightarrow> cN cf ! 0 ! k = c cf ! 0 ! k"
  by (cases "c cf") (simp_all add: cN_def)

lemma Update_views:
  assumes "Update d y xv (int k) (int l) cf = Inr cf'" and "length d = m cf"
  shows "(\<forall>i<m cf. B cf' ! i ! l = AN cf ! i ! k \<and> AN cf' ! i ! k = B cf ! i ! l)
    \<and> cB cf' ! 0 ! l = cN cf ! 0 ! k \<and> cN cf' ! 0 ! k = cB cf ! 0 ! l"
proof -
  from Update_spec [OF assms(1)] assms(2) have
    nm: "n cf' = n cf" "m cf' = m cf" and len: "length (A cf') = length (A cf)"
    and A': "\<forall>j<length (A cf). A cf' ! j =
          (if j < m cf
           then (A cf ! j)[n cf + l := A cf ! j ! k, k := A cf ! j ! (n cf + l)]
           else A cf ! j)"
    and c': "c cf' = (c cf)[0 := (c cf ! 0)[n cf + l := c cf ! 0 ! k, k := c cf ! 0 ! (n cf + l)]]"
    and kl: "k < n cf" "l < m cf" "c cf \<noteq> []" "k < length (c cf ! 0)"
      "n cf + l < length (c cf ! 0)"
    and rows: "\<forall>j<m cf. j < length (A cf) \<and> k < length (A cf ! j)
          \<and> n cf + l < length (A cf ! j)"
    by auto
  have "\<forall>i<m cf. B cf' ! i ! l = AN cf ! i ! k \<and> AN cf' ! i ! k = B cf ! i ! l"
  proof (intro allI impI)
    fix i assume i: "i < m cf"
    with rows have r: "i < length (A cf)" "k < length (A cf ! i)" "n cf + l < length (A cf ! i)"
      by auto
    with A' i have row: "A cf' ! i = (A cf ! i)[n cf + l := A cf ! i ! k, k := A cf ! i ! (n cf + l)]"
      by simp
    have "B cf' ! i ! l = A cf' ! i ! (n cf + l)"
      using B_nth [of i cf' l] i r nm len kl row by simp
    also have "\<dots> = A cf ! i ! k"
      using row r kl by simp
    also have "\<dots> = AN cf ! i ! k"
      using AN_nth [of i cf k] i r kl by simp
    finally have one: "B cf' ! i ! l = AN cf ! i ! k" .
    have "AN cf' ! i ! k = A cf' ! i ! k"
      using AN_nth [of i cf' k] i r nm len kl row by simp
    also have "\<dots> = A cf ! i ! (n cf + l)"
      using row r by simp
    also have "\<dots> = B cf ! i ! l"
      using B_nth [of i cf l] i r kl by simp
    finally show "B cf' ! i ! l = AN cf ! i ! k \<and> AN cf' ! i ! k = B cf ! i ! l"
      using one by simp
  qed
  moreover have "cB cf' ! 0 ! l = cN cf ! 0 ! k"
    using cB_nth [of cf' l] cN_nth [of cf k] c' kl nm by simp
  moreover have "cN cf' ! 0 ! k = cB cf ! 0 ! l"
    using cN_nth [of cf' k] cB_nth [of cf l] c' kl nm by simp
  ultimately show ?thesis by simp
qed

lemma Update_map_views:
  assumes "Update_map d y xv (int k) (int l) cf = Inr cf'" and "length d = m cf"
  shows "(\<forall>i<m cf. B cf' ! i ! l = AN cf ! i ! k) \<and> cB cf' ! 0 ! l = cN cf ! 0 ! k
    \<and> AN cf' = AN cf \<and> cN cf' = cN cf"
proof -
  from Update_map_spec [OF assms(1)] assms(2) have
    nm: "n cf' = n cf" "m cf' = m cf" and len: "length (A cf') = length (A cf)"
    and A': "\<forall>j<length (A cf). A cf' ! j =
          (if j < m cf then (A cf ! j)[n cf + l := A cf ! j ! k] else A cf ! j)"
    and c': "c cf' = (c cf)[0 := (c cf ! 0)[n cf + l := c cf ! 0 ! k]]"
    and kl: "k < n cf" "l < m cf" "c cf \<noteq> []" "k < length (c cf ! 0)"
      "n cf + l < length (c cf ! 0)"
    and rows: "\<forall>j<m cf. j < length (A cf) \<and> k < length (A cf ! j)
          \<and> n cf + l < length (A cf ! j)"
    by auto
  have "\<forall>i<m cf. B cf' ! i ! l = AN cf ! i ! k"
  proof (intro allI impI)
    fix i assume i: "i < m cf"
    with rows have r: "i < length (A cf)" "k < length (A cf ! i)" "n cf + l < length (A cf ! i)"
      by auto
    with A' i have row: "A cf' ! i = (A cf ! i)[n cf + l := A cf ! i ! k]"
      by simp
    have "B cf' ! i ! l = A cf' ! i ! (n cf + l)"
      using B_nth [of i cf' l] i r nm len kl row by simp
    also have "\<dots> = A cf ! i ! k"
      using row r by simp
    also have "\<dots> = AN cf ! i ! k"
      using AN_nth [of i cf k] i r kl by simp
    finally show "B cf' ! i ! l = AN cf ! i ! k" .
  qed
  moreover have "cB cf' ! 0 ! l = cN cf ! 0 ! k"
    using cB_nth [of cf' l] cN_nth [of cf k] c' kl nm by simp
  moreover have "AN cf' = AN cf"
    unfolding AN_def nm
  proof (rule nth_equalityI)
    show "length (map (take (n cf)) (take (m cf) (A cf')))
            = length (map (take (n cf)) (take (m cf) (A cf)))"
      using len by simp
  next
    fix i assume "i < length (map (take (n cf)) (take (m cf) (A cf')))"
    with len have i: "i < m cf" "i < length (A cf)" by simp_all
    with A' have "A cf' ! i = (A cf ! i)[n cf + l := A cf ! i ! k]" by simp
    with i len show "map (take (n cf)) (take (m cf) (A cf')) ! i
                       = map (take (n cf)) (take (m cf) (A cf)) ! i"
      by simp
  qed
  moreover have "cN cf' = cN cf"
    using kl c' nm by (cases "c cf") (simp_all add: cN_def)
  ultimately show ?thesis by simp
qed

text \<open>
  C5 (as amended). In the array-remap version, a successful \<^verbatim>\<open>Update\<close> with direction
  \<open>d\<close> (of \<open>m\<close> rows), step \<open>x\<^sup>*\<close>, entering column \<open>k\<close> and leaving row \<open>l\<close> sets \<open>xBStar\<close>
  to \<open>xBStar - x\<^sup>*\<cdot>d\<close> with entry \<open>l\<close> overwritten by \<open>x\<^sup>*\<close>, exchanges column \<open>l\<close> of \<open>B\<close>
  with column \<open>k\<close> of \<open>AN\<close> and \<open>cB[l]\<close> with \<open>cN[k]\<close>, and changes nothing else: every row
  of \<open>A\<close>, and the row \<open>c\<close>, is the old one with the entries at \<open>k\<close> and \<open>n + l\<close>
  exchanged. In the map-remap version \<^verbatim>\<open>Update\<close> copies column \<open>k\<close> of \<open>AN\<close> into column
  \<open>l\<close> of \<open>B\<close> and \<open>cN[k]\<close> into \<open>cB[l]\<close>, and leaves \<open>AN\<close> and \<open>cN\<close> as they were.
\<close>

theorem Update_exchanges_columns:
  "(Update d y xv (int k) (int l) cf = Inr cf' \<and> length d = m cf \<longrightarrow>
      (\<exists>xb. Sub (xBStar cf) (Scale xv d) = Inr xb \<and> xBStar cf' = xb[l := (xb ! l)[0 := xv]])
      \<and> (\<forall>i<m cf. B cf' ! i ! l = AN cf ! i ! k \<and> AN cf' ! i ! k = B cf ! i ! l)
      \<and> cB cf' ! 0 ! l = cN cf ! 0 ! k \<and> cN cf' ! 0 ! k = cB cf ! 0 ! l
      \<and> length (A cf') = length (A cf)
      \<and> (\<forall>i<length (A cf). A cf' ! i =
            (if i < m cf
             then (A cf ! i)[n cf + l := A cf ! i ! k, k := A cf ! i ! (n cf + l)]
             else A cf ! i))
      \<and> c cf' = (c cf)[0 := (c cf ! 0)[n cf + l := c cf ! 0 ! k, k := c cf ! 0 ! (n cf + l)]]
      \<and> n cf' = n cf \<and> m cf' = m cf \<and> x cf' = x cf \<and> b cf' = b cf \<and> remap cf' = remap cf)
   \<and> (Update_map d y xv (int k) (int l) cg = Inr cg' \<and> length d = m cg \<longrightarrow>
      (\<exists>xb. Sub (xBStar cg) (Scale xv d) = Inr xb \<and> xBStar cg' = xb[l := (xb ! l)[0 := xv]])
      \<and> (\<forall>i<m cg. B cg' ! i ! l = AN cg ! i ! k) \<and> cB cg' ! 0 ! l = cN cg ! 0 ! k
      \<and> AN cg' = AN cg \<and> cN cg' = cN cg
      \<and> n cg' = n cg \<and> m cg' = m cg \<and> x cg' = x cg \<and> b cg' = b cg \<and> remap cg' = remap cg)"
  (is "(?H1 \<longrightarrow> ?C1) \<and> (?H2 \<longrightarrow> ?C2)")
proof (rule conjI; rule impI)
  assume ?H1
  then have u: "Update d y xv (int k) (int l) cf = Inr cf'" and ld: "length d = m cf"
    by simp_all
  from Update_spec [OF u] ld Update_views [OF u ld]
  show ?C1 by auto
next
  assume ?H2
  then have u: "Update_map d y xv (int k) (int l) cg = Inr cg'" and ld: "length d = m cg"
    by simp_all
  from Update_map_spec [OF u] Update_map_views [OF u ld]
  show ?C2 by auto
qed

lemma New_map_scenM0:
  "New_map zero_cf_map [[7, 9, 18, 17]] [[2, 4, 5, 7], [1, 1, 2, 2], [1, 2, 3, 3]]
     [[42], [17], [24]] = (None, scenM0)"
  by (simp add: New_map_def zero_cf_map_def scenM0_def prim_defs loop_simps eval_nat_numeral)

lemma Update_scenA0:
  "Update [[5], [2], [3]] [[0, 0, 0]] 8 (int 2) (int 2) scenA0
     = Inr (scenA1\<lparr>remap := remap scenA0\<rparr>)"
  by (simp add: scenA0_def scenA1_def prim_defs view_defs Update_def loop_simps eval_nat_numeral)

lemma Update_map_scenM0:
  "Update_map [[5], [2], [3]] [[0, 0, 0]] 8 (int 2) (int 2) scenM0 = Inr scenM1"
  by (simp add: scenM0_def scenM1_def prim_defs view_defs Update_map_def loop_simps
      eval_nat_numeral)

theorem Update_exchanges_columns_witness:
  "Update [[5], [2], [3]] [[0, 0, 0]] 8 (int 2) (int 2) scenA0
     = Inr (scenA1\<lparr>remap := remap scenA0\<rparr>)
   \<and> length [[5], [2], [3 :: real]] = m scenA0
   \<and> cB (scenA1\<lparr>remap := remap scenA0\<rparr>) ! 0 ! 2 = cN scenA0 ! 0 ! 2
   \<and> cN (scenA1\<lparr>remap := remap scenA0\<rparr>) ! 0 ! 2 = cB scenA0 ! 0 ! 2
   \<and> Update_map [[5], [2], [3]] [[0, 0, 0]] 8 (int 2) (int 2) scenM0 = Inr scenM1
   \<and> length [[5], [2], [3 :: real]] = m scenM0
   \<and> AN scenM1 = AN scenM0 \<and> cN scenM1 = cN scenM0"
proof -
  have l1: "length [[5], [2], [3 :: real]] = m scenA0"
    by (simp add: scenA0_def)
  have l2: "length [[5], [2], [3 :: real]] = m scenM0"
    by (simp add: scenM0_def)
  from Update_exchanges_columns [of "[[5], [2], [3]]" "[[0, 0, 0]]" 8 2 2 scenA0
      "scenA1\<lparr>remap := remap scenA0\<rparr>" scenM0 scenM1]
    Update_scenA0 Update_map_scenM0 l1 l2
  show ?thesis by simp
qed

text \<open>
  C5 (as stated) fails for the map-remap \<^verbatim>\<open>Update\<close>: after the first pivot of
  scenario A (entering column 2, leaving row 2) column 2 of \<open>AN\<close> is still \<open>(5, 2, 3)\<close>,
  not the former column 2 of \<open>B\<close>, and \<open>cN[2]\<close> is still 18, not the former \<open>cB[2]\<close>.
\<close>

theorem Update_map_no_exchange_counterexample:
  "Update_map [[5], [2], [3]] [[0, 0, 0]] 8 2 2 scenM0 = Inr scenM1
   \<and> ColView (B scenM0) 2 = Inr [[0], [0], [1]]
   \<and> ColView (AN scenM1) 2 = Inr [[5], [2], [3]]
   \<and> At (cB scenM0) 0 2 = Inr 0 \<and> At (cN scenM1) 0 2 = Inr 18"
  using Update_map_scenM0
  by (simp add: scenM0_def scenM1_def prim_defs view_defs eval_nat_numeral)

section \<open>The remap structure\<close>

lemma init_remap_spec:
  "init_remap i j hi rm k =
     (if int i \<le> k \<and> k < int hi then Some (k - int i + int j) else rm k)"
proof (induction i j hi rm rule: init_remap.induct)
  case (1 i j hi rm)
  show ?case
  proof (cases "i < hi")
    case False
    then show ?thesis by (auto simp: init_remap.simps)
  next
    case True
    from "1.IH" [OF True] have ih:
      "init_remap (Suc i) (Suc j) hi (rm(int i \<mapsto> int j)) k =
         (if int (Suc i) \<le> k \<and> k < int hi then Some (k - int (Suc i) + int (Suc j))
          else (rm(int i \<mapsto> int j)) k)" .
    from True have "init_remap i j hi rm k
                      = init_remap (Suc i) (Suc j) hi (rm(int i \<mapsto> int j)) k"
      by (subst init_remap.simps) simp
    also note ih
    finally show ?thesis
      using True by (cases "k = int i") auto
  qed
qed

text \<open>After a successful \<^verbatim>\<open>New\<close>: the identity array, respectively the slack keys only.\<close>

lemma New_remap_initial:
  "New cf0 cc AA bb = (None, cf) \<Longrightarrow> remap cf = map int [0..<n cf + m cf]"
  by (auto simp: New_def Let_def split_beta split: if_splits sum.splits)

lemma New_map_remap_initial:
  assumes "New_map cf0 z AA bb = (None, cf)"
  shows "remap cf = (\<lambda>k. if int (n cf) \<le> k \<and> k < int (n cf + m cf)
                          then Some (k - int (n cf)) else None)"
proof -
  from assms have "remap cf = init_remap (n cf) 0 (n cf + m cf) Map.empty"
    by (auto simp: New_map_def Let_def split_beta split: if_splits sum.splits)
  then show ?thesis
    by (simp add: init_remap_spec fun_eq_iff)
qed

text \<open>
  C8 does not hold of the code once pivots have been made. Map version, on
  \<open>c = [3,2]\<close>, \<open>A = [[1,1],[2,1]]\<close>, \<open>b = [4,2]\<close>: after the two pivots the map has the
  three keys 0, 1, 2 for \<open>m = 2\<close> rows, the keys 0 and 1 both on row 1, and the result
  reports \<open>x\<^sub>0 = x\<^sub>1 = 2\<close>, which violates \<open>2 x\<^sub>0 + x\<^sub>1 \<le> 2\<close>. Array version, on
  \<open>c = [1,1]\<close>, \<open>A = [[1,0],[2,1]]\<close>, \<open>b = [1,2]\<close>: after three pivots the basis is the
  slack of row 0 and \<open>x\<^sub>1\<close>, but \<open>remap\<close> is \<open>[0,3,0,1]\<close>, so the result reports the slack's
  value as \<open>x\<^sub>0 = 1\<close> next to \<open>x\<^sub>1 = 2\<close>, which violates \<open>2 x\<^sub>0 + x\<^sub>1 \<le> 2\<close>.
\<close>

theorem remap_after_pivots:
  "(case simplex_loop_map 10
           (snd (New_map zero_cf_map [[3, 2]] [[1, 1], [2, 1]] [[4], [2]])) 0 of
      Inl e \<Rightarrow> False
    | Inr (t, cf) \<Rightarrow>
        t = 2 \<and> m cf = 2 \<and> dom (remap cf) = {0, 1, 2}
        \<and> remap cf 0 = Some 1 \<and> remap cf 1 = Some 1)
   \<and> Simplex_map [[3, 2]] [[1, 1], [2, 1]] [[4], [2]] 10 = Inr (2, [[2], [2], [2], [0]], 10)
   \<and> simplex_loop 10 (snd (New zero_cf [[1, 1]] [[1, 0], [2, 1]] [[1], [2]])) 0
       = Inr (3, \<lparr>n = 2, m = 2, A = [[1, 0, 1, 0], [2, 1, 0, 1]],
                  x = [[0], [0], [0], [0]], c = [[1, 0, 0, 1]], b = [[1], [2]],
                  xBStar = [[1], [2]], remap = [0, 3, 0, 1]\<rparr>)
   \<and> Simplex [[1, 1]] [[1, 0], [2, 1]] [[1], [2]] 10 = Inr (3, [[1], [2], [0], [0]], 2)"
proof (intro conjI)
  show "case simplex_loop_map 10
           (snd (New_map zero_cf_map [[3, 2]] [[1, 1], [2, 1]] [[4], [2]])) 0 of
      Inl e \<Rightarrow> False
    | Inr (t, cf) \<Rightarrow>
        t = 2 \<and> m cf = 2 \<and> dom (remap cf) = {0, 1, 2}
        \<and> remap cf 0 = Some 1 \<and> remap cf 1 = Some 1"
    by (simp add: New_map_def zero_cf_map_def prim_defs view_defs step_map_defs
        loop_simps eval_nat_numeral) auto
  show "Simplex_map [[3, 2]] [[1, 1], [2, 1]] [[4], [2]] 10
          = Inr (2, [[2], [2], [2], [0]], 10)"
    by (simp add: Simplex_map_def New_map_def zero_cf_map_def GetResults_map_def prim_defs
        view_defs step_map_defs loop_simps eval_nat_numeral)
  show "simplex_loop 10 (snd (New zero_cf [[1, 1]] [[1, 0], [2, 1]] [[1], [2]])) 0
       = Inr (3, \<lparr>n = 2, m = 2, A = [[1, 0, 1, 0], [2, 1, 0, 1]],
                  x = [[0], [0], [0], [0]], c = [[1, 0, 0, 1]], b = [[1], [2]],
                  xBStar = [[1], [2]], remap = [0, 3, 0, 1]\<rparr>)"
    by (simp add: New_def zero_cf_def prim_defs view_defs step_defs loop_simps eval_nat_numeral)
  show "Simplex [[1, 1]] [[1, 0], [2, 1]] [[1], [2]] 10 = Inr (3, [[1], [2], [0], [0]], 2)"
    by (simp add: Simplex_def New_def zero_cf_def GetResults_def prim_defs view_defs step_defs
        loop_simps eval_nat_numeral)
qed

end
